theory Spec2Isabelle
  imports Main
begin

section \<open>User entities and the user repository\<close>

text \<open>
  \<^verbatim>\<open>UserEntity\<close> is declared outside the sources at hand; its fields are the ones
  \<^verbatim>\<open>getUserMeta\<close> and \<^verbatim>\<open>updateUserProfile\<close> read and write. The field \<^verbatim>\<open>id\<close> is
  written \<open>id_user\<close>, since \<open>id\<close> is the identity function of HOL.
\<close>

record UserEntity =
  id_user :: int
  username :: string
  email :: string
  publicEmail :: bool
  bio :: string
  sexIsFamale :: bool
  organization :: string
  location :: string
  isAdmin :: bool
  acceptedProblemCount :: int
  submissionCount :: int
  rating :: int
  registrationTime :: int

text \<open>
  The persisted rows behind \<^verbatim>\<open>userRepository\<close> are a list of entities. The queries the
  service issues are read off that list: \<^verbatim>\<open>findOne(id)\<close>, \<^verbatim>\<open>findByIds(ids)\<close> and
  \<^verbatim>\<open>count({field: value})\<close>.
\<close>

type_synonym user_table = "UserEntity list"

definition findOne :: "user_table \<Rightarrow> int \<Rightarrow> UserEntity option" where
  "findOne t i = find (\<lambda>u. id_user u = i) t"

definition findByIds :: "user_table \<Rightarrow> int list \<Rightarrow> UserEntity list" where
  "findByIds t ids = filter (\<lambda>u. id_user u \<in> set ids) t"

definition count_rows :: "user_table \<Rightarrow> (UserEntity \<Rightarrow> bool) \<Rightarrow> nat" where
  "count_rows t cond = length (filter cond t)"

definition findUserById :: "user_table \<Rightarrow> int \<Rightarrow> UserEntity option" where
  "findUserById t i = findOne t i"

subsection \<open>findUsersByExistingIds\<close>

text \<open>
  \<^verbatim>\<open>Array.from(new Set(xs))\<close> keeps the first occurrence of every element, in order.
  \<^verbatim>\<open>Object.fromEntries\<close> lets a later entry replace an earlier one with the same key; a key
  that was never entered reads as \<^verbatim>\<open>undefined\<close>, here \<open>None\<close>.
\<close>

fun Array_from_Set :: "'a list \<Rightarrow> 'a list \<Rightarrow> 'a list" where
  "Array_from_Set seen [] = seen"
| "Array_from_Set seen (x # xs) =
     (if x \<in> set seen then Array_from_Set seen xs else Array_from_Set (seen @ [x]) xs)"

fun fromEntries :: "('k \<times> 'v) list \<Rightarrow> ('k \<rightharpoonup> 'v) \<Rightarrow> ('k \<rightharpoonup> 'v)" where
  "fromEntries [] obj = obj"
| "fromEntries ((k, v) # es) obj = fromEntries es (obj(k \<mapsto> v))"

definition findUsersByExistingIds :: "user_table \<Rightarrow> int list \<Rightarrow> UserEntity option list" where
  "findUsersByExistingIds t userIds =
     (if length userIds = 0 then []
      else
        let uniqueIds = Array_from_Set [] userIds;
            records = findByIds t uniqueIds;
            map_obj = fromEntries (map (\<lambda>record. (id_user record, record)) records) Map.empty
        in map (\<lambda>userId. map_obj userId) userIds)"

subsection \<open>getUserMeta\<close>

text \<open>
  The privilege lookup belongs to \<^verbatim>\<open>UserPrivilegeService\<close>, and the digest and the two
  string operations to the runtime's library; none of them is part of the sources, so the
  model takes them as parameters. Only the privilege the service asks for is listed.
\<close>

datatype UserPrivilegeType = MANAGE_USER

record runtime =
  md5_hex :: "string \<Rightarrow> string"
  trim :: "string \<Rightarrow> string"
  toLowerCase :: "string \<Rightarrow> string"

text \<open>The fields of \<^verbatim>\<open>UserMetaDto\<close> carry the suffix \<open>_meta\<close> where the entity has the name.\<close>

record UserMetaDto =
  id_meta :: int
  username_meta :: string
  email_meta :: "string option"
  gravatarEmailHash :: string
  bio_meta :: string
  sexIsFamale_meta :: bool
  organization_meta :: string
  location_meta :: string
  isAdmin_meta :: bool
  acceptedProblemCount_meta :: int
  submissionCount_meta :: int
  rating_meta :: int
  registrationTime_meta :: int

definition getUserMeta ::
  "runtime \<Rightarrow> (UserEntity \<Rightarrow> UserPrivilegeType \<Rightarrow> bool) \<Rightarrow>
   UserEntity \<Rightarrow> UserEntity option \<Rightarrow> UserMetaDto" where
  "getUserMeta rt userHasPrivilege user currentUser =
     (let hash = md5_hex rt (toLowerCase rt (trim rt (email user)))
      in \<lparr> id_meta = id_user user,
           username_meta = username user,
           email_meta =
             (if publicEmail user \<or>
                 (case currentUser of
                    None \<Rightarrow> False
                  | Some cu \<Rightarrow> id_user cu = id_user user \<or> userHasPrivilege cu MANAGE_USER)
              then Some (email user)
              else None),
           gravatarEmailHash = hash,
           bio_meta = bio user,
           sexIsFamale_meta = sexIsFamale user,
           organization_meta = organization user,
           location_meta = location user,
           isAdmin_meta = isAdmin user,
           acceptedProblemCount_meta = acceptedProblemCount user,
           submissionCount_meta = submissionCount user,
           rating_meta = rating user,
           registrationTime_meta = registrationTime user \<rparr>)"

subsection \<open>Availability checks\<close>

definition checkUsernameAvailability :: "user_table \<Rightarrow> string \<Rightarrow> bool" where
  "checkUsernameAvailability t name = (count_rows t (\<lambda>u. username u = name) = 0)"

definition checkEmailAvailability :: "user_table \<Rightarrow> string \<Rightarrow> bool" where
  "checkEmailAvailability t addr = (count_rows t (\<lambda>u. email u = addr) = 0)"

subsection \<open>updateUserProfile\<close>

datatype UpdateUserProfileResponseError = DUPLICATE_USERNAME | DUPLICATE_EMAIL

text \<open>The parameter \<^verbatim>\<open>information\<close>; its fields carry the suffix \<open>_info\<close>.\<close>

record information =
  bio_info :: string
  sexIsFamale_info :: bool
  organization_info :: string
  location_info :: string

datatype IsolationLevel = READ_UNCOMMITTED | READ_COMMITTED | REPEATABLE_READ | SERIALIZABLE

text \<open>
  What is persisted: the rows of the user table, and the credentials that \<^verbatim>\<open>AuthService\<close>
  keeps (a type parameter, since that service is not among the sources).
\<close>

record 'c database =
  users :: user_table
  auths :: 'c

text \<open>
  The collaborators of \<^verbatim>\<open>updateUserProfile\<close>, taken as parameters: the store's write
  (\<^verbatim>\<open>save\<close> of the repository and of the transactional entity manager), which returns the
  new rows or fails with an exception \<open>'e\<close> and then changes nothing, and the two functions
  of \<^verbatim>\<open>AuthService\<close>. A rejected promise is \<open>Inl\<close> of the exception.
\<close>

record ('c, 'a, 'e) collaborators =
  repo_save :: "UserEntity \<Rightarrow> user_table \<Rightarrow> 'e + user_table"
  auth_findUserAuthByUserId :: "int \<Rightarrow> 'c \<Rightarrow> 'a"
  auth_changePassword :: "'a \<Rightarrow> string \<Rightarrow> 'c \<Rightarrow> 'e + 'c"

text \<open>The calls the service issues to the store and to \<^verbatim>\<open>AuthService\<close>, in order.\<close>

datatype 'a store_call =
    RepositorySave UserEntity
  | StartTransaction IsolationLevel
  | FindUserAuthByUserId int
  | ChangePassword 'a string
  | ManagerSave UserEntity
  | CommitTransaction
  | RollbackTransaction
  | CountUsername string
  | CountEmail string

text \<open>Lines 116 to 123: the assignments to the entity that was passed in.\<close>

definition assignFields ::
  "UserEntity \<Rightarrow> string option \<Rightarrow> string option \<Rightarrow> bool \<Rightarrow> information \<Rightarrow> UserEntity" where
  "assignFields user0 username_arg email_arg publicEmail_arg info =
     (let changingUsername = (username_arg \<noteq> None);
          changingEmail = (email_arg \<noteq> None);
          user1 = (case username_arg of Some n \<Rightarrow> user0\<lparr>username := n\<rparr> | None \<Rightarrow> user0);
          user2 = (case email_arg of Some m \<Rightarrow> user1\<lparr>email := m\<rparr> | None \<Rightarrow> user1)
      in user2\<lparr> publicEmail := publicEmail_arg,
                bio := bio_info info,
                sexIsFamale := sexIsFamale_info info,
                organization := organization_info info,
                location := location_info info \<rparr>)"

text \<open>
  \<^verbatim>\<open>connection.transaction(level, callback)\<close> hands the callback a transactional entity
  manager, here the rows the manager works on. What the callback wrote through the manager
  is committed when the callback resolves and dropped when it rejects. The callback also
  reaches the credentials, through \<^verbatim>\<open>authService\<close>: that call is not given the manager,
  so what it wrote is not among the writes a rollback drops.
\<close>

definition transaction ::
  "IsolationLevel \<Rightarrow>
   (user_table \<Rightarrow> 'c \<Rightarrow> ('e + user_table) \<times> 'c \<times> 'a store_call list) \<Rightarrow>
   'c database \<Rightarrow> ('e + unit) \<times> 'c database \<times> 'a store_call list" where
  "transaction level runInTransaction d =
     (case runInTransaction (users d) (auths d) of
        (Inl e, c', log) \<Rightarrow>
          (Inl e, d\<lparr>auths := c'\<rparr>, [StartTransaction level] @ log @ [RollbackTransaction])
      | (Inr t', c', log) \<Rightarrow>
          (Inr (), \<lparr>users = t', auths = c'\<rparr>, [StartTransaction level] @ log @ [CommitTransaction]))"

text \<open>Lines 125 to 130: the write, with or without the credential rotation.\<close>

definition persist ::
  "('c, 'a, 'e) collaborators \<Rightarrow> UserEntity \<Rightarrow> string option \<Rightarrow> 'c database \<Rightarrow>
   ('e + unit) \<times> 'c database \<times> 'a store_call list" where
  "persist env user password d =
     (case password of
        None \<Rightarrow>
          (case repo_save env user (users d) of
             Inl e \<Rightarrow> (Inl e, d, [RepositorySave user])
           | Inr t' \<Rightarrow> (Inr (), d\<lparr>users := t'\<rparr>, [RepositorySave user]))
      | Some pw \<Rightarrow>
          transaction READ_COMMITTED
            (\<lambda>manager c.
               let userAuth = auth_findUserAuthByUserId env (id_user user) c;
                   log = [FindUserAuthByUserId (id_user user), ChangePassword userAuth pw]
               in case auth_changePassword env userAuth pw c of
                    Inl e \<Rightarrow> (Inl e, c, log)
                  | Inr c' \<Rightarrow>
                      (case repo_save env user manager of
                         Inl e \<Rightarrow> (Inl e, c', log @ [ManagerSave user])
                       | Inr t' \<Rightarrow> (Inr t', c', log @ [ManagerSave user])))
            d)"

text \<open>
  Lines 131 to 139, the \<^verbatim>\<open>catch\<close> block: the availability checks run on the rows as they
  are after the failed write, the one for the username first.
\<close>

definition diagnose ::
  "user_table \<Rightarrow> string option \<Rightarrow> string option \<Rightarrow> 'e \<Rightarrow>
   ('e + UpdateUserProfileResponseError option) \<times> 'a store_call list" where
  "diagnose t username_arg email_arg e =
     (case (case username_arg of
              None \<Rightarrow> (False, [])
            | Some n \<Rightarrow> (\<not> checkUsernameAvailability t n, [CountUsername n])) of
        (True, log1) \<Rightarrow> (Inr (Some DUPLICATE_USERNAME), log1)
      | (False, log1) \<Rightarrow>
          (case (case email_arg of
                   None \<Rightarrow> (False, [])
                 | Some m \<Rightarrow> (\<not> checkEmailAvailability t m, [CountEmail m])) of
             (True, log2) \<Rightarrow> (Inr (Some DUPLICATE_EMAIL), log1 @ log2)
           | (False, log2) \<Rightarrow> (Inl e, log1 @ log2)))"

text \<open>
  The result of a call: what the promise settles to (\<open>Inr None\<close> is the \<^verbatim>\<open>null\<close> of a
  success), the entity object as the caller holds it afterwards, what is persisted, and
  the calls issued.
\<close>

record ('c, 'a, 'e) profile_result =
  returned :: "'e + UpdateUserProfileResponseError option"
  entity :: UserEntity
  db :: "'c database"
  calls :: "'a store_call list"

definition updateUserProfile ::
  "('c, 'a, 'e) collaborators \<Rightarrow> UserEntity \<Rightarrow> string option \<Rightarrow> string option \<Rightarrow> bool \<Rightarrow>
   string option \<Rightarrow> information \<Rightarrow> 'c database \<Rightarrow> ('c, 'a, 'e) profile_result" where
  "updateUserProfile env user0 username_arg email_arg publicEmail_arg password info d =
     (let user = assignFields user0 username_arg email_arg publicEmail_arg info
      in case persist env user password d of
           (Inr _, d', log) \<Rightarrow>
             \<lparr> returned = Inr None, entity = user, db = d', calls = log \<rparr>
         | (Inl e, d', log) \<Rightarrow>
             (case diagnose (users d') username_arg email_arg e of
                (res, log') \<Rightarrow>
                  \<lparr> returned = res, entity = user, db = d', calls = log @ log' \<rparr>))"

section \<open>The problem controller\<close>

text \<open>
  \<^verbatim>\<open>ProblemEntity\<close> and \<^verbatim>\<open>GroupEntity\<close> are declared outside the sources at hand. The
  fields of a problem are the ones the controller copies into the response's \<^verbatim>\<open>meta\<close>; of
  a group nothing but its id is used. \<^verbatim>\<open>Locale\<close> is a locale tag such as \<^verbatim>\<open>en\<close>.
\<close>

type_synonym Locale = string

record ProblemEntity =
  id_problem :: int
  displayId :: int
  type_problem :: string
  isPublic :: bool
  ownerId :: int
  locales :: "Locale list"

record GroupEntity =
  id_group :: int

datatype ProblemPermissionType = CREATE | READ | WRITE | CONTROL

text \<open>A number of the runtime, as far as the lookups go: an integer, or what \<^verbatim>\<open>parseInt\<close>
  gives for a string that holds none.\<close>

datatype number = Num int | NaN

text \<open>
  The members of the response enums the controller returns. Each enum is a string enum
  whose values are the names of its members, so one type holds them all.
\<close>

datatype ResponseError =
  PERMISSION_DENIED | NO_SUCH_PROBLEM | FAILED | NO_SUCH_USER | NO_SUCH_GROUP

text \<open>
  \<^verbatim>\<open>ProblemService\<close> and \<^verbatim>\<open>GroupService\<close> are not among the sources: the controller is
  modelled over any implementation of the functions it calls, each a function of the state
  \<open>'s\<close> that the two services persist. The prefix \<open>ps_\<close> stands for \<^verbatim>\<open>problemService.\<close>
  and \<open>gs_\<close> for \<^verbatim>\<open>groupService.\<close>; \<open>js_parseInt\<close> is the runtime's \<^verbatim>\<open>parseInt\<close>. The two
  functions that resolve a localized text may fail with an exception \<open>'e\<close>. Only
  \<^verbatim>\<open>updateProblemStatement\<close> and \<^verbatim>\<open>setProblemPermissions\<close> write.
\<close>

record ('s, 'q, 'cs, 'smp, 'ji, 'e) services =
  ps_findProblemById :: "number \<Rightarrow> 's \<Rightarrow> ProblemEntity option"
  ps_findProblemByDisplayId :: "number \<Rightarrow> 's \<Rightarrow> ProblemEntity option"
  ps_userHasPermission ::
    "UserEntity option \<Rightarrow> ProblemPermissionType \<Rightarrow> ProblemEntity option \<Rightarrow> 's \<Rightarrow> bool"
  ps_updateProblemStatement :: "ProblemEntity \<Rightarrow> 'q \<Rightarrow> 's \<Rightarrow> bool \<times> 's"
  ps_getProblemLocalizedTitle :: "ProblemEntity \<Rightarrow> Locale \<Rightarrow> 's \<Rightarrow> 'e + Locale \<times> string"
  ps_getProblemLocalizedContent :: "ProblemEntity \<Rightarrow> Locale \<Rightarrow> 's \<Rightarrow> 'e + Locale \<times> 'cs"
  ps_getProblemSamples :: "ProblemEntity \<Rightarrow> 's \<Rightarrow> 'smp"
  ps_getProblemJudgeInfo :: "ProblemEntity \<Rightarrow> 's \<Rightarrow> 'ji"
  ps_setProblemPermissions ::
    "ProblemEntity \<Rightarrow> ProblemPermissionType \<Rightarrow> UserEntity list \<Rightarrow> GroupEntity list \<Rightarrow> 's \<Rightarrow> 's"
  gs_findGroupById :: "int \<Rightarrow> 's \<Rightarrow> GroupEntity option"
  js_parseInt :: "string \<Rightarrow> number"

text \<open>
  The calls a request issues, in order. A permission check is logged with its arguments
  (the resource is optional in the signature of \<^verbatim>\<open>userHasPermission\<close>) and its answer.
\<close>

datatype 'q service_call =
    FindProblemById number
  | FindProblemByDisplayId number
  | UserHasPermission "UserEntity option" ProblemPermissionType "ProblemEntity option" bool
  | UpdateProblemStatement ProblemEntity 'q
  | GetProblemLocalizedTitle ProblemEntity Locale
  | GetProblemLocalizedContent ProblemEntity Locale
  | GetProblemSamples ProblemEntity
  | GetProblemJudgeInfo ProblemEntity
  | FindUserById int
  | FindGroupById int
  | SetProblemPermissions ProblemEntity ProblemPermissionType "UserEntity list" "GroupEntity list"

subsection \<open>updateStatement\<close>

text \<open>Of the request only \<^verbatim>\<open>problemId\<close> is read here; the service gets the whole request.\<close>

record UpdateProblemStatementRequestDto =
  problemId_us :: int

record UpdateProblemStatementResponseDto =
  error_us :: "ResponseError option"

definition updateStatement ::
  "('s, 'z UpdateProblemStatementRequestDto_scheme, 'cs, 'smp, 'ji, 'e) services \<Rightarrow>
   UserEntity option \<Rightarrow> 'z UpdateProblemStatementRequestDto_scheme \<Rightarrow> 's \<Rightarrow>
   UpdateProblemStatementResponseDto \<times> 's \<times>
   'z UpdateProblemStatementRequestDto_scheme service_call list" where
  "updateStatement svc currentUser request s =
     (let log1 = [FindProblemById (Num (problemId_us request))]
      in case ps_findProblemById svc (Num (problemId_us request)) s of
           None \<Rightarrow> (\<lparr>error_us = Some NO_SUCH_PROBLEM\<rparr>, s, log1)
         | Some problem \<Rightarrow>
             (let granted = ps_userHasPermission svc currentUser WRITE (Some problem) s;
                  log2 = log1 @ [UserHasPermission currentUser WRITE (Some problem) granted]
              in if \<not> granted then (\<lparr>error_us = Some PERMISSION_DENIED\<rparr>, s, log2)
                 else
                   (case ps_updateProblemStatement svc problem request s of
                      (success, s') \<Rightarrow>
                        (let log3 = log2 @ [UpdateProblemStatement problem request]
                         in if \<not> success then (\<lparr>error_us = Some FAILED\<rparr>, s', log3)
                            else (\<lparr>error_us = None\<rparr>, s', log3)))))"

subsection \<open>getProblemDetail\<close>

text \<open>
  The query parameters \<^verbatim>\<open>id\<close> and \<^verbatim>\<open>displayId\<close> are strings that may be missing. The
  response is the object the controller builds, key by key; its \<^verbatim>\<open>meta\<close> holds the six
  fields of the problem, so it is a \<open>ProblemEntity\<close> here.
\<close>

record GetProblemDetailRequestDto =
  id_req :: "string option"
  displayId_req :: "string option"
  locale_req :: Locale

record ('cs, 'smp, 'ji) GetProblemDetailResponseDto =
  error_gd :: "ResponseError option"
  meta :: "ProblemEntity option"
  title :: "string option"
  titleLocale :: "Locale option"
  samples :: "'smp option"
  contentSections :: "'cs option"
  contentLocale :: "Locale option"
  judgeInfo :: "'ji option"

definition error_only :: "ResponseError \<Rightarrow> ('cs, 'smp, 'ji) GetProblemDetailResponseDto" where
  "error_only err =
     \<lparr> error_gd = Some err, meta = None, title = None, titleLocale = None, samples = None,
       contentSections = None, contentLocale = None, judgeInfo = None \<rparr>"

text \<open>The test \<^verbatim>\<open>if (request.id)\<close>: a missing parameter and the empty string are falsy.\<close>

definition truthy :: "string option \<Rightarrow> bool" where
  "truthy p = (case p of None \<Rightarrow> False | Some v \<Rightarrow> v \<noteq> [])"

text \<open>Lines 122 to 128: which lookup runs, if any.\<close>

definition lookupProblem ::
  "('s, 'q, 'cs, 'smp, 'ji, 'e) services \<Rightarrow> GetProblemDetailRequestDto \<Rightarrow> 's \<Rightarrow>
   ProblemEntity option \<times> 'q service_call list" where
  "lookupProblem svc request s =
     (case id_req request of
        Some v \<Rightarrow>
          (if v \<noteq> [] then
             (ps_findProblemById svc (js_parseInt svc v) s, [FindProblemById (js_parseInt svc v)])
           else
             (case displayId_req request of
                Some w \<Rightarrow>
                  (if w \<noteq> [] then
                     (ps_findProblemByDisplayId svc (js_parseInt svc w) s,
                      [FindProblemByDisplayId (js_parseInt svc w)])
                   else (None, []))
              | None \<Rightarrow> (None, [])))
      | None \<Rightarrow>
          (case displayId_req request of
             Some w \<Rightarrow>
               (if w \<noteq> [] then
                  (ps_findProblemByDisplayId svc (js_parseInt svc w) s,
                   [FindProblemByDisplayId (js_parseInt svc w)])
                else (None, []))
           | None \<Rightarrow> (None, [])))"

definition getProblemDetail ::
  "('s, 'q, 'cs, 'smp, 'ji, 'e) services \<Rightarrow> UserEntity option \<Rightarrow> GetProblemDetailRequestDto \<Rightarrow>
   's \<Rightarrow> ('e + ('cs, 'smp, 'ji) GetProblemDetailResponseDto) \<times> 'q service_call list" where
  "getProblemDetail svc currentUser request s =
     (case lookupProblem svc request s of
        (None, log1) \<Rightarrow> (Inr (error_only NO_SUCH_PROBLEM), log1)
      | (Some problem, log1) \<Rightarrow>
          (let granted = ps_userHasPermission svc currentUser READ (Some problem) s;
               log2 = log1 @ [UserHasPermission currentUser READ (Some problem) granted]
           in if \<not> granted then (Inr (error_only PERMISSION_DENIED), log2)
              else
                (let log3 = log2 @ [GetProblemLocalizedTitle problem (locale_req request)]
                 in case ps_getProblemLocalizedTitle svc problem (locale_req request) s of
                      Inl e \<Rightarrow> (Inl e, log3)
                    | Inr (titleLocale_v, title_v) \<Rightarrow>
                        (let log4 = log3 @ [GetProblemLocalizedContent problem (locale_req request)]
                         in case ps_getProblemLocalizedContent svc problem (locale_req request) s of
                              Inl e \<Rightarrow> (Inl e, log4)
                            | Inr (contentLocale_v, contentSections_v) \<Rightarrow>
                                (Inr \<lparr> error_gd = None,
                                       meta = Some \<lparr> id_problem = id_problem problem,
                                                     displayId = displayId problem,
                                                     type_problem = type_problem problem,
                                                     isPublic = isPublic problem,
                                                     ownerId = ownerId problem,
                                                     locales = locales problem \<rparr>,
                                       title = Some title_v,
                                       titleLocale = Some titleLocale_v,
                                       samples = Some (ps_getProblemSamples svc problem s),
                                       contentSections = Some contentSections_v,
                                       contentLocale = Some contentLocale_v,
                                       judgeInfo = Some (ps_getProblemJudgeInfo svc problem s) \<rparr>,
                                 log4 @ [GetProblemSamples problem, GetProblemJudgeInfo problem])))))"

subsection \<open>setProblemPermissions\<close>

record SetProblemPermissionsRequestDto =
  problemId_sp :: int
  permissionType :: ProblemPermissionType
  userIds :: "int list"
  groupIds :: "int list"

record SetProblemPermissionsResponseDto =
  error_sp :: "ResponseError option"
  errorObjectId :: "int option"

text \<open>
  Lines 211 to 221 and 223 to 233: the two loops. Each stops at the first id that has no
  entity and returns that id; otherwise it returns the entities pushed so far, in order.
\<close>

fun resolveUsers ::
  "user_table \<Rightarrow> int list \<Rightarrow> UserEntity list \<Rightarrow> (int + UserEntity list) \<times> 'q service_call list" where
  "resolveUsers t [] users_acc = (Inr users_acc, [])"
| "resolveUsers t (userId # rest) users_acc =
     (case findUserById t userId of
        None \<Rightarrow> (Inl userId, [FindUserById userId])
      | Some user \<Rightarrow>
          (case resolveUsers t rest (users_acc @ [user]) of
             (r, log) \<Rightarrow> (r, FindUserById userId # log)))"

fun resolveGroups ::
  "('s, 'q, 'cs, 'smp, 'ji, 'e) services \<Rightarrow> 's \<Rightarrow> int list \<Rightarrow> GroupEntity list \<Rightarrow>
   (int + GroupEntity list) \<times> 'q service_call list" where
  "resolveGroups svc s [] groups_acc = (Inr groups_acc, [])"
| "resolveGroups svc s (groupId # rest) groups_acc =
     (case gs_findGroupById svc groupId s of
        None \<Rightarrow> (Inl groupId, [FindGroupById groupId])
      | Some grp \<Rightarrow>
          (case resolveGroups svc s rest (groups_acc @ [grp]) of
             (r, log) \<Rightarrow> (r, FindGroupById groupId # log)))"

definition setProblemPermissions ::
  "('s, 'q, 'cs, 'smp, 'ji, 'e) services \<Rightarrow> user_table \<Rightarrow> UserEntity option \<Rightarrow>
   SetProblemPermissionsRequestDto \<Rightarrow> 's \<Rightarrow>
   SetProblemPermissionsResponseDto \<times> 's \<times> 'q service_call list" where
  "setProblemPermissions svc t currentUser request s =
     (let log1 = [FindProblemById (Num (problemId_sp request))]
      in case ps_findProblemById svc (Num (problemId_sp request)) s of
           None \<Rightarrow>
             (\<lparr>error_sp = Some NO_SUCH_PROBLEM, errorObjectId = Some (problemId_sp request)\<rparr>,
              s, log1)
         | Some problem \<Rightarrow>
             (let granted = ps_userHasPermission svc currentUser CONTROL (Some problem) s;
                  log2 = log1 @ [UserHasPermission currentUser CONTROL (Some problem) granted]
              in if \<not> granted
                 then (\<lparr>error_sp = Some PERMISSION_DENIED, errorObjectId = None\<rparr>, s, log2)
                 else
                   (case resolveUsers t (userIds request) [] of
                      (Inl userId, log3) \<Rightarrow>
                        (\<lparr>error_sp = Some NO_SUCH_USER, errorObjectId = Some userId\<rparr>,
                         s, log2 @ log3)
                    | (Inr users_v, log3) \<Rightarrow>
                        (case resolveGroups svc s (groupIds request) [] of
                           (Inl groupId, log4) \<Rightarrow>
                             (\<lparr>error_sp = Some NO_SUCH_GROUP, errorObjectId = Some groupId\<rparr>,
                              s, log2 @ log3 @ log4)
                         | (Inr groups_v, log4) \<Rightarrow>
                             (\<lparr>error_sp = None, errorObjectId = None\<rparr>,
                              ps_setProblemPermissions svc problem (permissionType request)
                                users_v groups_v s,
                              log2 @ log3 @ log4 @
                                [SetProblemPermissions problem (permissionType request)
                                   users_v groups_v])))))"

section \<open>Instances of the parameters\<close>

text \<open>
  Concrete users, a store, an \<^verbatim>\<open>AuthService\<close>, a runtime and a problem service, on which
  the model runs. They stand in for the parts that are not among the sources.
\<close>

definition alice :: UserEntity where
  "alice = \<lparr> id_user = 1, username = ''alice'', email = '' Alice@Example.org'',
     publicEmail = False, bio = ''hi'', sexIsFamale = True, organization = ''A'',
     location = ''X'', isAdmin = False, acceptedProblemCount = 3, submissionCount = 9,
     rating = 1500, registrationTime = 100 \<rparr>"

definition bob :: UserEntity where
  "bob = \<lparr> id_user = 2, username = ''bob'', email = ''bob@example.org'',
     publicEmail = True, bio = [], sexIsFamale = False, organization = ''B'',
     location = ''Y'', isAdmin = False, acceptedProblemCount = 0, submissionCount = 0,
     rating = 1400, registrationTime = 200 \<rparr>"

definition root :: UserEntity where
  "root = \<lparr> id_user = 3, username = ''root'', email = ''root@example.org'',
     publicEmail = False, bio = [], sexIsFamale = False, organization = [],
     location = [], isAdmin = True, acceptedProblemCount = 0, submissionCount = 0,
     rating = 1500, registrationTime = 0 \<rparr>"

definition new_info :: information where
  "new_info = \<lparr> bio_info = ''new bio'', sexIsFamale_info = False,
     organization_info = ''new org'', location_info = ''new place'' \<rparr>"

text \<open>
  Modelled from the spec: the backing store behind \<^verbatim>\<open>save\<close>, which is not among the
  sources. It enforces that usernames and emails are unique: a write that would give two
  rows the same username or email fails and changes nothing; any other write replaces the
  row with the entity's id, or adds the entity when no row has that id.
\<close>

definition unique_save :: "UserEntity \<Rightarrow> user_table \<Rightarrow> string + user_table" where
  "unique_save u t =
     (if \<exists>r\<in>set t. id_user r \<noteq> id_user u \<and> (username r = username u \<or> email r = email u)
      then Inl ''ER_DUP_ENTRY''
      else if \<exists>r\<in>set t. id_user r = id_user u
           then Inr (map (\<lambda>r. if id_user r = id_user u then u else r) t)
           else Inr (t @ [u]))"

text \<open>
  A credential store that maps a user id to a password, with a rotation that overwrites
  the entry; the same with a rotation that always fails; and the same with a store that
  cannot be reached.
\<close>

definition example_collaborators :: "((int \<times> string) list, int, string) collaborators" where
  "example_collaborators =
     \<lparr> repo_save = unique_save,
       auth_findUserAuthByUserId = (\<lambda>userId c. userId),
       auth_changePassword =
         (\<lambda>userAuth pw c. Inr ((userAuth, pw) # filter (\<lambda>kv. fst kv \<noteq> userAuth) c)) \<rparr>"

definition failing_rotation :: "((int \<times> string) list, int, string) collaborators" where
  "failing_rotation =
     example_collaborators\<lparr> auth_changePassword := (\<lambda>userAuth pw c. Inl ''rotation failed'') \<rparr>"

definition unreachable_store :: "((int \<times> string) list, int, string) collaborators" where
  "unreachable_store =
     example_collaborators\<lparr> repo_save := (\<lambda>u t. Inl ''connection lost'') \<rparr>"

definition example_db :: "(int \<times> string) list database" where
  "example_db = \<lparr> users = [alice, bob], auths = [(1, ''old-a''), (2, ''old-b'')] \<rparr>"

text \<open>
  A runtime: a digest that only tags its input, \<^verbatim>\<open>trim\<close> for blanks, \<^verbatim>\<open>toLowerCase\<close> for
  the letters A to Z, and \<^verbatim>\<open>parseInt\<close> for a string that starts with decimal digits. A
  privilege service in which administrators hold every privilege.
\<close>

definition example_trim :: "string \<Rightarrow> string" where
  "example_trim v =
     rev (dropWhile (\<lambda>c. c = CHR '' '') (rev (dropWhile (\<lambda>c. c = CHR '' '') v)))"

definition example_toLowerCase :: "string \<Rightarrow> string" where
  "example_toLowerCase v =
     map (\<lambda>c. case map_of (zip ''ABCDEFGHIJKLMNOPQRSTUVWXYZ'' ''abcdefghijklmnopqrstuvwxyz'') c of
                Some l \<Rightarrow> l
              | None \<Rightarrow> c) v"

definition example_runtime :: runtime where
  "example_runtime =
     \<lparr> md5_hex = (\<lambda>v. ''md5:'' @ v), trim = example_trim, toLowerCase = example_toLowerCase \<rparr>"

definition example_userHasPrivilege :: "UserEntity \<Rightarrow> UserPrivilegeType \<Rightarrow> bool" where
  "example_userHasPrivilege u p = isAdmin u"

definition example_parseInt :: "string \<Rightarrow> number" where
  "example_parseInt v =
     (case takeWhile (\<lambda>c. c \<in> set ''0123456789'') v of
        [] \<Rightarrow> NaN
      | ds \<Rightarrow> Num (foldl (\<lambda>n c. 10 * n + (int (of_char c) - 48)) 0 ds))"

text \<open>
  Modelled from the spec: \<^verbatim>\<open>getProblemLocalizedTitle\<close> and \<^verbatim>\<open>getProblemLocalizedContent\<close>
  of \<^verbatim>\<open>ProblemService\<close>, which are not among the sources. The variants are kept in the
  order they were inserted. If the requested locale is present, it is returned with its
  content; otherwise the locale that was inserted first is; an empty set of variants is
  the failure \<^verbatim>\<open>EmptyVariantSet\<close>.
\<close>

datatype resolver_error = EmptyVariantSet

definition resolve :: "(Locale \<times> 'v) list \<Rightarrow> Locale \<Rightarrow> resolver_error + Locale \<times> 'v" where
  "resolve variants requested =
     (case map_of variants requested of
        Some v \<Rightarrow> Inr (requested, v)
      | None \<Rightarrow>
          (case variants of
             [] \<Rightarrow> Inl EmptyVariantSet
           | (l, v) # rest \<Rightarrow> Inr (l, v)))"

text \<open>
  A state for the two services: problems, groups, the grants per problem and level, and
  the title and content variants per problem. In the permission check that goes with it,
  an administrator and the owner may do anything and anyone may read a public problem.
\<close>

record example_state =
  problems :: "ProblemEntity list"
  groups :: "GroupEntity list"
  grants :: "(int \<times> ProblemPermissionType \<times> int list \<times> int list) list"
  titles :: "(int \<times> (Locale \<times> string) list) list"
  contents :: "(int \<times> (Locale \<times> string list) list) list"

definition example_userHasPermission ::
  "UserEntity option \<Rightarrow> ProblemPermissionType \<Rightarrow> ProblemEntity option \<Rightarrow> example_state \<Rightarrow> bool" where
  "example_userHasPermission cu level resource s =
     (case resource of
        None \<Rightarrow> (case cu of None \<Rightarrow> False | Some u \<Rightarrow> isAdmin u)
      | Some p \<Rightarrow>
          (case cu of
             None \<Rightarrow> level = READ \<and> isPublic p
           | Some u \<Rightarrow> isAdmin u \<or> id_user u = ownerId p \<or> (level = READ \<and> isPublic p)))"

definition example_services ::
  "(example_state, 'q, string list, unit, unit, resolver_error) services" where
  "example_services =
     \<lparr> ps_findProblemById =
         (\<lambda>n s. case n of Num i \<Rightarrow> find (\<lambda>p. id_problem p = i) (problems s) | NaN \<Rightarrow> None),
       ps_findProblemByDisplayId =
         (\<lambda>n s. case n of Num i \<Rightarrow> find (\<lambda>p. displayId p = i) (problems s) | NaN \<Rightarrow> None),
       ps_userHasPermission = example_userHasPermission,
       ps_updateProblemStatement = (\<lambda>p q s. (True, s)),
       ps_getProblemLocalizedTitle =
         (\<lambda>p l s. case map_of (titles s) (id_problem p) of
                     None \<Rightarrow> Inl EmptyVariantSet
                   | Some variants \<Rightarrow> resolve variants l),
       ps_getProblemLocalizedContent =
         (\<lambda>p l s. case map_of (contents s) (id_problem p) of
                     None \<Rightarrow> Inl EmptyVariantSet
                   | Some variants \<Rightarrow> resolve variants l),
       ps_getProblemSamples = (\<lambda>p s. ()),
       ps_getProblemJudgeInfo = (\<lambda>p s. ()),
       ps_setProblemPermissions =
         (\<lambda>p level us gs s.
            s\<lparr> grants := (id_problem p, level, map id_user us, map id_group gs)
                          # filter (\<lambda>g. \<not> (fst g = id_problem p \<and> fst (snd g) = level))
                              (grants s) \<rparr>),
       gs_findGroupById = (\<lambda>i s. find (\<lambda>g. id_group g = i) (groups s)),
       js_parseInt = example_parseInt \<rparr>"

definition two_sum :: ProblemEntity where
  "two_sum = \<lparr> id_problem = 10, displayId = 1, type_problem = ''TRADITIONAL'',
     isPublic = False, ownerId = 1, locales = [''en'', ''fr''] \<rparr>"

definition example_state0 :: example_state where
  "example_state0 =
     \<lparr> problems = [two_sum],
       groups = [\<lparr>id_group = 5\<rparr>],
       grants = [],
       titles = [(10, [(''en'', ''Two Sum'')])],
       contents = [(10, [(''en'', [''Find two numbers'']), (''fr'', [''Trouver deux nombres''])])] \<rparr>"

section \<open>Properties of the user service\<close>

subsection \<open>findUsersByExistingIds\<close>

lemma fromEntries_lookup:
  "fromEntries es obj k =
     (case map_of (rev es) k of Some v \<Rightarrow> Some v | None \<Rightarrow> obj k)"
proof (induction es arbitrary: obj)
  case Nil
  then show ?case by simp
next
  case (Cons e es)
  obtain a b where e: "e = (a, b)" by (cases e)
  show ?case
    unfolding e by (auto simp add: Cons.IH map_add_def split: option.splits)
qed

lemma set_Array_from_Set: "set (Array_from_Set seen xs) = set seen \<union> set xs"
  by (induction seen xs rule: Array_from_Set.induct) auto

lemma map_of_entries_find:
  "map_of (map (\<lambda>record. (id_user record, record)) rs) k = find (\<lambda>u. id_user u = k) rs"
  by (induction rs) auto

lemma find_filter_implied:
  "(\<And>u. Q u \<Longrightarrow> P u) \<Longrightarrow> find Q (filter P xs) = find Q xs"
  by (induction xs) auto

lemma find_Some_in: "find P xs = Some u \<Longrightarrow> u \<in> set xs \<and> P u"
  by (induction xs) (auto split: if_splits)

text \<open>
  The object built from the records answers a key with the last row that has this id, so
  the result is a positional lookup in the rows.
\<close>

lemma findUsersByExistingIds_eq:
  "findUsersByExistingIds t ids =
     map (\<lambda>i. find (\<lambda>u. id_user u = i) (rev t)) ids"
proof (cases "ids = []")
  case True
  then show ?thesis by (simp add: findUsersByExistingIds_def)
next
  case False
  have "fromEntries (map (\<lambda>record. (id_user record, record))
            (findByIds t (Array_from_Set [] ids))) Map.empty k
        = find (\<lambda>u. id_user u = k) (rev t)" if "k \<in> set ids" for k
  proof -
    have "find (\<lambda>u. id_user u = k) (filter (\<lambda>u. id_user u \<in> set ids) (rev t))
          = find (\<lambda>u. id_user u = k) (rev t)"
      using that by (intro find_filter_implied) simp
    then show ?thesis
      by (simp add: fromEntries_lookup findByIds_def set_Array_from_Set rev_map
          map_of_entries_find rev_filter split: option.splits)
  qed
  then show ?thesis
    using False by (simp add: findUsersByExistingIds_def Let_def)
qed

text \<open>
  Claim C10. For every list of user ids, \<^verbatim>\<open>findUsersByExistingIds\<close> returns a list of the
  same length; at each position, if some row has the id at that position of the input,
  the element is such a row, and otherwise it is \<^verbatim>\<open>undefined\<close>. Order and duplicates of
  the input are kept, and the empty input gives the empty list.
\<close>

theorem findUsersByExistingIds_positional:
  "length (findUsersByExistingIds t ids) = length ids \<and>
   (\<forall>i<length ids.
      if \<exists>u\<in>set t. id_user u = ids ! i
      then \<exists>u\<in>set t. id_user u = ids ! i \<and> findUsersByExistingIds t ids ! i = Some u
      else findUsersByExistingIds t ids ! i = None) \<and>
   findUsersByExistingIds t [] = []"
proof (intro conjI allI impI)
  show "length (findUsersByExistingIds t ids) = length ids"
    by (simp add: findUsersByExistingIds_eq)
next
  fix i assume i: "i < length ids"
  let ?k = "ids ! i"
  have r: "findUsersByExistingIds t ids ! i = find (\<lambda>u. id_user u = ?k) (rev t)"
    using i by (simp add: findUsersByExistingIds_eq)
  show "if \<exists>u\<in>set t. id_user u = ?k
        then \<exists>u\<in>set t. id_user u = ?k \<and> findUsersByExistingIds t ids ! i = Some u
        else findUsersByExistingIds t ids ! i = None"
  proof (cases "find (\<lambda>u. id_user u = ?k) (rev t)")
    case None
    then have "\<not> (\<exists>u\<in>set t. id_user u = ?k)"
      by (auto simp: find_None_iff)
    with None r show ?thesis by simp
  next
    case (Some u)
    then have "u \<in> set t \<and> id_user u = ?k"
      using find_Some_in [of "\<lambda>u. id_user u = ?k" "rev t" u] by simp
    with Some r show ?thesis by auto
  qed
next
  show "findUsersByExistingIds t [] = []"
    by (simp add: findUsersByExistingIds_def)
qed

theorem findUsersByExistingIds_positional_witness:
  "findUsersByExistingIds [alice, bob] [2, 7, 2, 1] = [Some bob, None, Some bob, Some alice] \<and>
   length (findUsersByExistingIds [alice, bob] [2, 7, 2, 1]) = length [2, 7, 2, 1 :: int]"
  using findUsersByExistingIds_positional [of "[alice, bob]" "[2, 7, 2, 1]"]
  by (simp add: findUsersByExistingIds_def findByIds_def alice_def bob_def)

subsection \<open>updateUserProfile: the diagnosis of a failed write\<close>

lemma persist_failure_keeps_users:
  "persist env user password d = (Inl e, d', log) \<Longrightarrow> users d' = users d"
  by (auto simp: persist_def transaction_def Let_def split: option.splits sum.splits prod.splits)

lemma taken_username: "(\<not> checkUsernameAvailability t n) = (\<exists>u\<in>set t. username u = n)"
  by (auto simp: checkUsernameAvailability_def count_rows_def filter_empty_conv)

lemma taken_email: "(\<not> checkEmailAvailability t m) = (\<exists>u\<in>set t. email u = m)"
  by (auto simp: checkEmailAvailability_def count_rows_def filter_empty_conv)

lemma diagnose_result:
  "fst (diagnose t un em e) =
     (if \<exists>n. un = Some n \<and> (\<exists>u\<in>set t. username u = n) then Inr (Some DUPLICATE_USERNAME)
      else if \<exists>m. em = Some m \<and> (\<exists>u\<in>set t. email u = m) then Inr (Some DUPLICATE_EMAIL)
      else Inl e)"
  by (cases un; cases em) (auto simp: diagnose_def taken_username taken_email split: bool.splits)

lemma diagnose_calls:
  "snd (diagnose t un em e) =
     (case un of None \<Rightarrow> [] | Some n \<Rightarrow> [CountUsername n]) @
     (if \<exists>n. un = Some n \<and> (\<exists>u\<in>set t. username u = n) then []
      else case em of None \<Rightarrow> [] | Some m \<Rightarrow> [CountEmail m])"
  by (cases un; cases em) (auto simp: diagnose_def taken_username taken_email split: bool.splits)

text \<open>
  Claim C1. When the write of a call fails with \<open>e\<close> (the exception the \<^verbatim>\<open>try\<close> block
  raises, from the store or from the rotation inside the transaction): if a username was
  supplied and some persisted row has it, the call returns \<^verbatim>\<open>DUPLICATE_USERNAME\<close>;
  otherwise, if an email was supplied and some persisted row has it, the call returns
  \<^verbatim>\<open>DUPLICATE_EMAIL\<close>; otherwise the call rejects with the same \<open>e\<close>. The count for the
  username is issued before the count for the email, and the latter only when the former
  found no conflict.
\<close>

theorem updateUserProfile_diagnoses_failure:
  fixes env :: "('c, 'a, 'e) collaborators"
  assumes failed: "persist env (assignFields user0 un em pe info) pw d = (Inl e, d', log)"
  defines "r \<equiv> updateUserProfile env user0 un em pe pw info d"
  shows "returned r =
           (if \<exists>n. un = Some n \<and> (\<exists>u\<in>set (users d). username u = n)
            then Inr (Some DUPLICATE_USERNAME)
            else if \<exists>m. em = Some m \<and> (\<exists>u\<in>set (users d). email u = m)
            then Inr (Some DUPLICATE_EMAIL)
            else Inl e) \<and>
         calls r =
           log @ (case un of None \<Rightarrow> [] | Some n \<Rightarrow> [CountUsername n]) @
           (if \<exists>n. un = Some n \<and> (\<exists>u\<in>set (users d). username u = n) then []
            else case em of None \<Rightarrow> [] | Some m \<Rightarrow> [CountEmail m])"
proof -
  have same: "users d' = users d"
    using failed by (rule persist_failure_keeps_users)
  obtain res log' where dg: "diagnose (users d) un em e = (res, log' :: 'a store_call list)"
    by (cases "diagnose (users d) un em e
          :: ('e + UpdateUserProfileResponseError option) \<times> 'a store_call list")
  have r: "returned r = res" "calls r = log @ log'"
    using failed dg by (simp_all add: r_def updateUserProfile_def Let_def same)
  have "res = fst (diagnose (users d) un em e
          :: ('e + UpdateUserProfileResponseError option) \<times> 'a store_call list)"
       "log' = snd (diagnose (users d) un em e
          :: ('e + UpdateUserProfileResponseError option) \<times> 'a store_call list)"
    using dg by simp_all
  then show ?thesis
    unfolding r by (simp only: diagnose_result diagnose_calls)
qed

theorem updateUserProfile_diagnoses_failure_witness:
  "persist example_collaborators (assignFields alice (Some ''bob'') None True new_info) None example_db
     = (Inl ''ER_DUP_ENTRY'', example_db,
        [RepositorySave (assignFields alice (Some ''bob'') None True new_info)]) \<and>
   returned (updateUserProfile example_collaborators alice (Some ''bob'') None True None new_info
     example_db) = Inr (Some DUPLICATE_USERNAME) \<and>
   persist example_collaborators (assignFields alice None (Some ''bob@example.org'') True new_info)
       None example_db
     = (Inl ''ER_DUP_ENTRY'', example_db,
        [RepositorySave (assignFields alice None (Some ''bob@example.org'') True new_info)]) \<and>
   returned (updateUserProfile example_collaborators alice None (Some ''bob@example.org'') True None
     new_info example_db) = Inr (Some DUPLICATE_EMAIL) \<and>
   persist unreachable_store (assignFields alice (Some ''al'') (Some ''al@example.org'') True new_info)
       None example_db
     = (Inl ''connection lost'', example_db,
        [RepositorySave (assignFields alice (Some ''al'') (Some ''al@example.org'') True new_info)]) \<and>
   returned (updateUserProfile unreachable_store alice (Some ''al'') (Some ''al@example.org'') True
     None new_info example_db) = Inl ''connection lost'' \<and>
   calls (updateUserProfile unreachable_store alice (Some ''al'') (Some ''al@example.org'') True
     None new_info example_db)
     = [RepositorySave (assignFields alice (Some ''al'') (Some ''al@example.org'') True new_info),
        CountUsername ''al'', CountEmail ''al@example.org'']"
proof -
  have p1: "persist example_collaborators (assignFields alice (Some ''bob'') None True new_info)
       None example_db
     = (Inl ''ER_DUP_ENTRY'', example_db,
        [RepositorySave (assignFields alice (Some ''bob'') None True new_info)])"
    by (simp add: persist_def example_collaborators_def unique_save_def assignFields_def
        example_db_def alice_def bob_def new_info_def)
  have p2: "persist example_collaborators
       (assignFields alice None (Some ''bob@example.org'') True new_info) None example_db
     = (Inl ''ER_DUP_ENTRY'', example_db,
        [RepositorySave (assignFields alice None (Some ''bob@example.org'') True new_info)])"
    by (simp add: persist_def example_collaborators_def unique_save_def assignFields_def
        example_db_def alice_def bob_def new_info_def)
  have p3: "persist unreachable_store
       (assignFields alice (Some ''al'') (Some ''al@example.org'') True new_info) None example_db
     = (Inl ''connection lost'', example_db,
        [RepositorySave (assignFields alice (Some ''al'') (Some ''al@example.org'') True new_info)])"
    by (simp add: persist_def unreachable_store_def example_collaborators_def)
  have u: "users example_db = [alice, bob]"
    by (simp add: example_db_def)
  show ?thesis
    using updateUserProfile_diagnoses_failure [OF p1] updateUserProfile_diagnoses_failure [OF p2]
      updateUserProfile_diagnoses_failure [OF p3] p1 p2 p3
    by (simp add: u alice_def bob_def)
qed

subsection \<open>getUserMeta\<close>

text \<open>
  Claim C9. The \<^verbatim>\<open>email\<close> of the result is the user's email exactly when the user made
  the email public, or there is a current user with the same id, or there is a current
  user for whom the privilege service grants \<^verbatim>\<open>MANAGE_USER\<close>; in every other case it is
  \<^verbatim>\<open>null\<close>. Whatever that condition, \<^verbatim>\<open>gravatarEmailHash\<close> is the digest of the trimmed,
  lower-cased email.
\<close>

theorem getUserMeta_email_visibility:
  "(email_meta (getUserMeta rt priv user cu) = Some (email user)) =
     (publicEmail user \<or>
      (\<exists>c. cu = Some c \<and> (id_user c = id_user user \<or> priv c MANAGE_USER))) \<and>
   (\<not> (publicEmail user \<or>
        (\<exists>c. cu = Some c \<and> (id_user c = id_user user \<or> priv c MANAGE_USER)))
    \<longrightarrow> email_meta (getUserMeta rt priv user cu) = None) \<and>
   gravatarEmailHash (getUserMeta rt priv user cu)
     = md5_hex rt (toLowerCase rt (trim rt (email user)))"
  by (cases cu) (auto simp: getUserMeta_def Let_def)

theorem getUserMeta_email_visibility_witness:
  "email_meta (getUserMeta example_runtime example_userHasPrivilege alice None) = None \<and>
   email_meta (getUserMeta example_runtime example_userHasPrivilege alice (Some bob)) = None \<and>
   email_meta (getUserMeta example_runtime example_userHasPrivilege alice (Some alice))
     = Some '' Alice@Example.org'' \<and>
   email_meta (getUserMeta example_runtime example_userHasPrivilege alice (Some root))
     = Some '' Alice@Example.org'' \<and>
   email_meta (getUserMeta example_runtime example_userHasPrivilege bob None)
     = Some ''bob@example.org'' \<and>
   gravatarEmailHash (getUserMeta example_runtime example_userHasPrivilege alice None)
     = ''md5:alice@example.org''"
  using getUserMeta_email_visibility [of example_runtime example_userHasPrivilege alice None]
    getUserMeta_email_visibility [of example_runtime example_userHasPrivilege alice "Some bob"]
    getUserMeta_email_visibility [of example_runtime example_userHasPrivilege alice "Some alice"]
    getUserMeta_email_visibility [of example_runtime example_userHasPrivilege alice "Some root"]
    getUserMeta_email_visibility [of example_runtime example_userHasPrivilege bob None]
  by (simp add: alice_def bob_def root_def example_userHasPrivilege_def example_runtime_def
      example_trim_def example_toLowerCase_def)

subsection \<open>updateUserProfile: what a call writes\<close>

lemma id_user_assignFields: "id_user (assignFields user0 un em pe info) = id_user user0"
  by (simp add: assignFields_def Let_def split: option.splits)

lemma assignFields_fields:
  "username (assignFields user0 un em pe info) = (case un of Some n \<Rightarrow> n | None \<Rightarrow> username user0)"
  "email (assignFields user0 un em pe info) = (case em of Some m \<Rightarrow> m | None \<Rightarrow> email user0)"
  "publicEmail (assignFields user0 un em pe info) = pe"
  "bio (assignFields user0 un em pe info) = bio_info info"
  "sexIsFamale (assignFields user0 un em pe info) = sexIsFamale_info info"
  "organization (assignFields user0 un em pe info) = organization_info info"
  "location (assignFields user0 un em pe info) = location_info info"
  by (simp_all add: assignFields_def Let_def split: option.splits)

lemma entity_updateUserProfile:
  "entity (updateUserProfile env user0 un em pe pw info d) = assignFields user0 un em pe info"
  by (simp add: updateUserProfile_def Let_def split: prod.splits sum.splits)

lemma diagnose_not_null: "diagnose t un em e \<noteq> (Inr None, lg)"
  by (auto simp: diagnose_def split: option.splits bool.splits prod.splits if_splits)

lemma returned_success_iff:
  "(returned (updateUserProfile env user0 un em pe pw info d) = Inr None) =
     (\<exists>d' log. persist env (assignFields user0 un em pe info) pw d = (Inr (), d', log))"
  by (auto simp: updateUserProfile_def Let_def diagnose_not_null split: prod.splits sum.splits)

lemma persist_calls_ChangePassword:
  "persist env user pw d = (res, d', log) \<Longrightarrow>
     (\<exists>a p. ChangePassword a p \<in> set log) = (pw \<noteq> None)"
  by (auto simp: persist_def transaction_def Let_def split: option.splits sum.splits prod.splits)

lemma diagnose_no_ChangePassword:
  "diagnose t un em e = (res, log) \<Longrightarrow> ChangePassword a p \<notin> set log"
  by (auto simp: diagnose_def split: option.splits bool.splits prod.splits if_splits)

lemma calls_ChangePassword:
  fixes env :: "('c, 'a, 'e) collaborators"
  shows "(\<exists>a p. ChangePassword a p \<in> set (calls (updateUserProfile env user0 un em pe pw info d)))
     = (pw \<noteq> None)"
proof -
  obtain res d' log where p: "persist env (assignFields user0 un em pe info) pw d = (res, d', log)"
    by (cases "persist env (assignFields user0 un em pe info) pw d")
  note cp = persist_calls_ChangePassword [OF p]
  show ?thesis
  proof (cases res)
    case (Inr u)
    then show ?thesis using p cp by (simp add: updateUserProfile_def Let_def)
  next
    case (Inl e)
    obtain r2 l2 where dg: "diagnose (users d') un em e = (r2, l2 :: 'a store_call list)"
      by (cases "diagnose (users d') un em e
            :: ('e + UpdateUserProfileResponseError option) \<times> 'a store_call list")
    have "calls (updateUserProfile env user0 un em pe pw info d) = log @ l2"
      using p Inl dg by (simp add: updateUserProfile_def Let_def)
    then show ?thesis
      using cp diagnose_no_ChangePassword [OF dg] by auto
  qed
qed

lemma persist_success:
  "persist env user pw d = (Inr (), d', log) \<Longrightarrow>
     repo_save env user (users d) = Inr (users d') \<and>
     (case pw of
        None \<Rightarrow> auths d' = auths d
      | Some p \<Rightarrow>
          auth_changePassword env (auth_findUserAuthByUserId env (id_user user) (auths d)) p (auths d)
            = Inr (auths d'))"
  by (auto simp: persist_def transaction_def Let_def split: option.splits sum.splits prod.splits)

text \<open>
  Claim C6, amended. For every call: the entity the call hands to the store has the
  username argument as its username when that argument is non-null and keeps the username
  of the entity that was passed in otherwise, and likewise the email; its \<^verbatim>\<open>bio\<close>,
  \<^verbatim>\<open>sexIsFamale\<close>, \<^verbatim>\<open>organization\<close> and \<^verbatim>\<open>location\<close> are those of \<^verbatim>\<open>information\<close>, whatever
  the other arguments; and \<^verbatim>\<open>changePassword\<close> is called exactly when a password was
  supplied. When the call returns success, the persisted rows are the ones the store's
  \<^verbatim>\<open>save\<close> made from that entity, and the persisted credentials are the old ones when no
  password was supplied and the ones \<^verbatim>\<open>changePassword\<close> made otherwise. Nothing is said
  of the store when the call does not return success.
\<close>

theorem updateUserProfile_writes:
  fixes env :: "('c, 'a, 'e) collaborators" and user0 un em pe pw info d
  defines "r \<equiv> updateUserProfile env user0 un em pe pw info d"
  shows "username (entity r) = (case un of Some n \<Rightarrow> n | None \<Rightarrow> username user0) \<and>
         email (entity r) = (case em of Some m \<Rightarrow> m | None \<Rightarrow> email user0) \<and>
         bio (entity r) = bio_info info \<and>
         sexIsFamale (entity r) = sexIsFamale_info info \<and>
         organization (entity r) = organization_info info \<and>
         location (entity r) = location_info info \<and>
         (\<exists>a p. ChangePassword a p \<in> set (calls r)) = (pw \<noteq> None) \<and>
         (returned r = Inr None \<longrightarrow>
            repo_save env (entity r) (users d) = Inr (users (db r)) \<and>
            (case pw of
               None \<Rightarrow> auths (db r) = auths d
             | Some p \<Rightarrow>
                 auth_changePassword env
                   (auth_findUserAuthByUserId env (id_user user0) (auths d)) p (auths d)
                   = Inr (auths (db r))))"
proof -
  have fields: "entity r = assignFields user0 un em pe info"
    by (simp add: r_def entity_updateUserProfile)
  have cp: "(\<exists>a p. ChangePassword a p \<in> set (calls r)) = (pw \<noteq> None)"
    unfolding r_def by (rule calls_ChangePassword)
  have ok: "repo_save env (entity r) (users d) = Inr (users (db r)) \<and>
            (case pw of
               None \<Rightarrow> auths (db r) = auths d
             | Some p \<Rightarrow>
                 auth_changePassword env
                   (auth_findUserAuthByUserId env (id_user user0) (auths d)) p (auths d)
                   = Inr (auths (db r)))" if "returned r = Inr None"
  proof -
    from that obtain d' log
      where p: "persist env (assignFields user0 un em pe info) pw d = (Inr (), d', log)"
      unfolding r_def returned_success_iff by blast
    have "db r = d'"
      using p by (simp add: r_def updateUserProfile_def Let_def)
    then show ?thesis
      using persist_success [OF p]
      by (cases pw) (simp_all add: fields id_user_assignFields)
  qed
  show ?thesis
    using cp ok by (simp add: fields assignFields_fields)
qed

lemmas run_example =
  updateUserProfile_def persist_def transaction_def assignFields_def diagnose_def
  checkUsernameAvailability_def checkEmailAvailability_def count_rows_def
  example_collaborators_def failing_rotation_def unreachable_store_def unique_save_def
  example_db_def alice_def bob_def new_info_def Let_def

theorem updateUserProfile_writes_witness:
  "updateUserProfile example_collaborators alice (Some ''al'') None True (Some ''new-pw'') new_info
     example_db
   = \<lparr> returned = Inr None,
       entity = alice\<lparr> username := ''al'', publicEmail := True, bio := ''new bio'',
                       sexIsFamale := False, organization := ''new org'',
                       location := ''new place'' \<rparr>,
       db = \<lparr> users = [alice\<lparr> username := ''al'', publicEmail := True, bio := ''new bio'',
                                sexIsFamale := False, organization := ''new org'',
                                location := ''new place'' \<rparr>, bob],
              auths = [(1, ''new-pw''), (2, ''old-b'')] \<rparr>,
       calls = [StartTransaction READ_COMMITTED, FindUserAuthByUserId 1,
                ChangePassword 1 ''new-pw'',
                ManagerSave (alice\<lparr> username := ''al'', publicEmail := True, bio := ''new bio'',
                                   sexIsFamale := False, organization := ''new org'',
                                   location := ''new place'' \<rparr>),
                CommitTransaction] \<rparr> \<and>
   updateUserProfile example_collaborators alice None None False None new_info example_db
   = \<lparr> returned = Inr None,
       entity = alice\<lparr> bio := ''new bio'', sexIsFamale := False, organization := ''new org'',
                       location := ''new place'' \<rparr>,
       db = \<lparr> users = [alice\<lparr> bio := ''new bio'', sexIsFamale := False,
                                organization := ''new org'', location := ''new place'' \<rparr>, bob],
              auths = [(1, ''old-a''), (2, ''old-b'')] \<rparr>,
       calls = [RepositorySave (alice\<lparr> bio := ''new bio'', sexIsFamale := False,
                                       organization := ''new org'',
                                       location := ''new place'' \<rparr>)] \<rparr>"
proof -
  have a: "updateUserProfile example_collaborators alice (Some ''al'') None True (Some ''new-pw'')
     new_info example_db
   = \<lparr> returned = Inr None,
       entity = alice\<lparr> username := ''al'', publicEmail := True, bio := ''new bio'',
                       sexIsFamale := False, organization := ''new org'',
                       location := ''new place'' \<rparr>,
       db = \<lparr> users = [alice\<lparr> username := ''al'', publicEmail := True, bio := ''new bio'',
                                sexIsFamale := False, organization := ''new org'',
                                location := ''new place'' \<rparr>, bob],
              auths = [(1, ''new-pw''), (2, ''old-b'')] \<rparr>,
       calls = [StartTransaction READ_COMMITTED, FindUserAuthByUserId 1,
                ChangePassword 1 ''new-pw'',
                ManagerSave (alice\<lparr> username := ''al'', publicEmail := True, bio := ''new bio'',
                                   sexIsFamale := False, organization := ''new org'',
                                   location := ''new place'' \<rparr>),
                CommitTransaction] \<rparr>"
    by (simp add: run_example)
  have b: "updateUserProfile example_collaborators alice None None False None new_info example_db
   = \<lparr> returned = Inr None,
       entity = alice\<lparr> bio := ''new bio'', sexIsFamale := False, organization := ''new org'',
                       location := ''new place'' \<rparr>,
       db = \<lparr> users = [alice\<lparr> bio := ''new bio'', sexIsFamale := False,
                                organization := ''new org'', location := ''new place'' \<rparr>, bob],
              auths = [(1, ''old-a''), (2, ''old-b'')] \<rparr>,
       calls = [RepositorySave (alice\<lparr> bio := ''new bio'', sexIsFamale := False,
                                       organization := ''new org'',
                                       location := ''new place'' \<rparr>)] \<rparr>"
    by (simp add: run_example)
  show ?thesis
    using updateUserProfile_writes [of example_collaborators alice "Some ''al''" None True
        "Some ''new-pw''" new_info example_db]
      updateUserProfile_writes [of example_collaborators alice None None False None new_info
        example_db] a b
    by simp
qed

text \<open>
  Claim C6 as stated does not hold of every call. A call that supplies bob's username for
  alice fails at the store: it returns \<^verbatim>\<open>DUPLICATE_USERNAME\<close> and the stored username and
  \<^verbatim>\<open>bio\<close> of alice are the old ones, though the username argument is non-null. A call with
  a password whose rotation fails leaves the stored password as it was. And a call without
  a username, given an entity whose username differs from the stored row, succeeds and
  replaces the stored username by the entity's.
\<close>

theorem updateUserProfile_failed_call_stores_nothing:
  "returned (updateUserProfile example_collaborators alice (Some ''bob'') None True None new_info
     example_db) = Inr (Some DUPLICATE_USERNAME) \<and>
   users (db (updateUserProfile example_collaborators alice (Some ''bob'') None True None new_info
     example_db)) = [alice, bob] \<and>
   username alice = ''alice'' \<and> bio alice = ''hi'' \<and> bio_info new_info = ''new bio'' \<and>
   returned (updateUserProfile failing_rotation alice None None False (Some ''new-pw'') new_info
     example_db) = Inl ''rotation failed'' \<and>
   db (updateUserProfile failing_rotation alice None None False (Some ''new-pw'') new_info
     example_db) = example_db \<and>
   returned (updateUserProfile example_collaborators (alice\<lparr>username := ''alicia''\<rparr>) None None
     False None new_info example_db) = Inr None \<and>
   map username (users (db (updateUserProfile example_collaborators
     (alice\<lparr>username := ''alicia''\<rparr>) None None False None new_info example_db)))
     = [''alicia'', ''bob''] \<and>
   map username (users example_db) = [''alice'', ''bob'']"
  by (simp add: run_example)

subsection \<open>updateUserProfile: the entity after a failed call\<close>

lemma calls_saved_entity:
  fixes env :: "('c, 'a, 'e) collaborators"
  assumes "RepositorySave u \<in> set (calls (updateUserProfile env user0 un em pe pw info d)) \<or>
           ManagerSave u \<in> set (calls (updateUserProfile env user0 un em pe pw info d))"
  shows "u = assignFields user0 un em pe info"
proof -
  obtain res d' log where p: "persist env (assignFields user0 un em pe info) pw d = (res, d', log)"
    by (cases "persist env (assignFields user0 un em pe info) pw d")
  have pl: "RepositorySave u \<in> set log \<or> ManagerSave u \<in> set log
      \<Longrightarrow> u = assignFields user0 un em pe info"
    using p
    by (auto simp: persist_def transaction_def Let_def
        split: option.splits sum.splits prod.splits)
  have dl: "RepositorySave u \<notin> set l2 \<and> ManagerSave u \<notin> set l2"
    if "diagnose t un em e = (r2, l2)" for t and e :: 'e and r2 and l2 :: "'a store_call list"
    using that by (auto simp: diagnose_def split: option.splits bool.splits prod.splits if_splits)
  show ?thesis
  proof (cases res)
    case (Inr x)
    then show ?thesis using p pl assms by (simp add: updateUserProfile_def Let_def)
  next
    case (Inl e)
    obtain r2 l2 where dg: "diagnose (users d') un em e = (r2, l2 :: 'a store_call list)"
      by (cases "diagnose (users d') un em e
            :: ('e + UpdateUserProfileResponseError option) \<times> 'a store_call list")
    have "calls (updateUserProfile env user0 un em pe pw info d) = log @ l2"
      using p Inl dg by (simp add: updateUserProfile_def Let_def)
    then show ?thesis
      using pl dl [OF dg] assms by auto
  qed
qed

lemma assignFields_shape:
  "assignFields user0 un em pe info =
           user0\<lparr> username := (case un of Some n \<Rightarrow> n | None \<Rightarrow> username user0),
                  email := (case em of Some m \<Rightarrow> m | None \<Rightarrow> email user0),
                  publicEmail := pe,
                  bio := bio_info info,
                  sexIsFamale := sexIsFamale_info info,
                  organization := organization_info info,
                  location := location_info info \<rparr>"
  by (cases un; cases em) (simp_all add: assignFields_def Let_def)

lemma failure_keeps_users:
  fixes env :: "('c, 'a, 'e) collaborators"
  assumes "returned (updateUserProfile env user0 un em pe pw info d) \<noteq> Inr None"
  shows "users (db (updateUserProfile env user0 un em pe pw info d)) = users d"
proof -
  obtain res d' log where p: "persist env (assignFields user0 un em pe info) pw d = (res, d', log)"
    by (cases "persist env (assignFields user0 un em pe info) pw d")
  show ?thesis
  proof (cases res)
    case (Inr x)
    then have "returned (updateUserProfile env user0 un em pe pw info d) = Inr None"
      using p by (simp add: updateUserProfile_def Let_def)
    with assms show ?thesis by simp
  next
    case (Inl x)
    have "db (updateUserProfile env user0 un em pe pw info d) = d'"
      using p Inl by (simp add: updateUserProfile_def Let_def split: prod.splits)
    moreover have "users d' = users d"
      using p unfolding Inl by (rule persist_failure_keeps_users)
    ultimately show ?thesis by simp
  qed
qed


text \<open>
  The entity is assigned before the write is attempted: every \<^verbatim>\<open>save\<close> the call issues
  is given the entity with the new fields. When the call does not return success (it
  returns \<^verbatim>\<open>DUPLICATE_USERNAME\<close> or \<^verbatim>\<open>DUPLICATE_EMAIL\<close>, or rejects), the entity the caller
  holds has the supplied username and email, the supplied \<^verbatim>\<open>publicEmail\<close> and the four
  fields of \<^verbatim>\<open>information\<close>, while the persisted user rows are the ones from before the
  call.
\<close>

theorem updateUserProfile_entity_after_failure:
  fixes env :: "('c, 'a, 'e) collaborators" and user0 un em pe pw info d
  defines "r \<equiv> updateUserProfile env user0 un em pe pw info d"
  assumes failed: "returned r \<noteq> Inr None"
  shows "entity r =
           user0\<lparr> username := (case un of Some n \<Rightarrow> n | None \<Rightarrow> username user0),
                  email := (case em of Some m \<Rightarrow> m | None \<Rightarrow> email user0),
                  publicEmail := pe,
                  bio := bio_info info,
                  sexIsFamale := sexIsFamale_info info,
                  organization := organization_info info,
                  location := location_info info \<rparr> \<and>
         users (db r) = users d \<and>
         (\<forall>u. RepositorySave u \<in> set (calls r) \<or> ManagerSave u \<in> set (calls r)
               \<longrightarrow> u = entity r)"
proof (intro conjI allI impI)
  show "entity r =
           user0\<lparr> username := (case un of Some n \<Rightarrow> n | None \<Rightarrow> username user0),
                  email := (case em of Some m \<Rightarrow> m | None \<Rightarrow> email user0),
                  publicEmail := pe,
                  bio := bio_info info,
                  sexIsFamale := sexIsFamale_info info,
                  organization := organization_info info,
                  location := location_info info \<rparr>"
    unfolding r_def entity_updateUserProfile by (rule assignFields_shape)
next
  show "users (db r) = users d"
    using failed unfolding r_def by (rule failure_keeps_users)
next
  fix u
  assume "RepositorySave u \<in> set (calls r) \<or> ManagerSave u \<in> set (calls r)"
  then have "u = assignFields user0 un em pe info"
    unfolding r_def by (rule calls_saved_entity)
  then show "u = entity r"
    unfolding r_def entity_updateUserProfile .
qed

theorem updateUserProfile_entity_after_failure_witness:
  "updateUserProfile example_collaborators alice (Some ''bob'') None True None new_info example_db
   = \<lparr> returned = Inr (Some DUPLICATE_USERNAME),
       entity = alice\<lparr> username := ''bob'', publicEmail := True, bio := ''new bio'',
                       sexIsFamale := False, organization := ''new org'',
                       location := ''new place'' \<rparr>,
       db = example_db,
       calls = [RepositorySave (alice\<lparr> username := ''bob'', publicEmail := True,
                                       bio := ''new bio'', sexIsFamale := False,
                                       organization := ''new org'',
                                       location := ''new place'' \<rparr>),
                CountUsername ''bob''] \<rparr> \<and>
   users example_db = [alice, bob] \<and>
   username alice = ''alice''"
proof -
  have a: "updateUserProfile example_collaborators alice (Some ''bob'') None True None new_info
     example_db
   = \<lparr> returned = Inr (Some DUPLICATE_USERNAME),
       entity = alice\<lparr> username := ''bob'', publicEmail := True, bio := ''new bio'',
                       sexIsFamale := False, organization := ''new org'',
                       location := ''new place'' \<rparr>,
       db = example_db,
       calls = [RepositorySave (alice\<lparr> username := ''bob'', publicEmail := True,
                                       bio := ''new bio'', sexIsFamale := False,
                                       organization := ''new org'',
                                       location := ''new place'' \<rparr>),
                CountUsername ''bob''] \<rparr>"
    by (simp add: run_example)
  have f: "returned (updateUserProfile example_collaborators alice (Some ''bob'') None True None
     new_info example_db) \<noteq> Inr None"
    by (simp add: a)
  have u: "users example_db = [alice, bob] \<and> username alice = ''alice''"
    by (simp add: example_db_def alice_def)
  show ?thesis
    using updateUserProfile_entity_after_failure [OF f] a u by simp
qed

subsection \<open>updateUserProfile: the rotation and the save\<close>

text \<open>
  With a password, the rotation and the save are issued inside one transaction at
  \<^verbatim>\<open>READ COMMITTED\<close>, the rotation first. When the rotation fails, no save is issued and
  nothing that is persisted changes.
\<close>

lemma rotation_failure_changes_nothing:
  fixes env :: "('c, 'a, 'e) collaborators"
  assumes "auth_changePassword env (auth_findUserAuthByUserId env (id_user user0) (auths d)) p
             (auths d) = Inl e"
  shows "db (updateUserProfile env user0 un em pe (Some p) info d) = d \<and>
         (\<exists>rest. calls (updateUserProfile env user0 un em pe (Some p) info d) =
            [StartTransaction READ_COMMITTED, FindUserAuthByUserId (id_user user0),
             ChangePassword (auth_findUserAuthByUserId env (id_user user0) (auths d)) p,
             RollbackTransaction] @ rest \<and>
            (\<forall>u. ManagerSave u \<notin> set rest \<and> RepositorySave u \<notin> set rest))"
proof -
  have p: "persist env (assignFields user0 un em pe info) (Some p) d =
     (Inl e, d, [StartTransaction READ_COMMITTED, FindUserAuthByUserId (id_user user0),
             ChangePassword (auth_findUserAuthByUserId env (id_user user0) (auths d)) p,
             RollbackTransaction])"
    using assms by (simp add: persist_def transaction_def Let_def id_user_assignFields)
  obtain r2 l2 where dg: "diagnose (users d) un em e = (r2, l2 :: 'a store_call list)"
    by (cases "diagnose (users d) un em e
          :: ('e + UpdateUserProfileResponseError option) \<times> 'a store_call list")
  have dl: "\<forall>u. ManagerSave u \<notin> set l2 \<and> RepositorySave u \<notin> set l2"
    using dg by (auto simp: diagnose_def split: option.splits bool.splits prod.splits if_splits)
  show ?thesis
    using p dg dl by (simp add: updateUserProfile_def Let_def)
qed

text \<open>
  Claim C2. The rotation and the save are not one atomic unit: \<^verbatim>\<open>changePassword\<close> is
  called without the transactional entity manager, so when the rotation succeeds and the
  save then fails, the rollback leaves the new credential in place. Here alice asks for
  bob's username and a new password: the call returns \<^verbatim>\<open>DUPLICATE_USERNAME\<close>, the user
  rows are unchanged, and the password of user 1 is the new one.
\<close>

theorem rotation_survives_failed_save:
  "returned (updateUserProfile example_collaborators alice (Some ''bob'') None False
     (Some ''new-pw'') new_info example_db) = Inr (Some DUPLICATE_USERNAME) \<and>
   users (db (updateUserProfile example_collaborators alice (Some ''bob'') None False
     (Some ''new-pw'') new_info example_db)) = users example_db \<and>
   auths example_db = [(1, ''old-a''), (2, ''old-b'')] \<and>
   auths (db (updateUserProfile example_collaborators alice (Some ''bob'') None False
     (Some ''new-pw'') new_info example_db)) = [(1, ''new-pw''), (2, ''old-b'')] \<and>
   calls (updateUserProfile example_collaborators alice (Some ''bob'') None False
     (Some ''new-pw'') new_info example_db) =
     [StartTransaction READ_COMMITTED, FindUserAuthByUserId 1, ChangePassword 1 ''new-pw'',
      ManagerSave (assignFields alice (Some ''bob'') None False new_info),
      RollbackTransaction, CountUsername ''bob'']"
  by (simp add: run_example)

subsection \<open>updateUserProfile: what is persisted after a failed call\<close>

text \<open>
  After a call that does not return success, all that is persisted is as before the call
  unless a rotation had succeeded: that is so when no password was supplied and when the
  rotation failed.
\<close>

lemma failure_keeps_db:
  fixes env :: "('c, 'a, 'e) collaborators"
  assumes failed: "returned (updateUserProfile env user0 un em pe pw info d) \<noteq> Inr None"
      and no_rotation: "pw = None \<or>
        (\<exists>p e. pw = Some p \<and>
           auth_changePassword env (auth_findUserAuthByUserId env (id_user user0) (auths d)) p
             (auths d) = Inl e)"
  shows "db (updateUserProfile env user0 un em pe pw info d) = d"
proof (cases pw)
  case None
  obtain res d' log where p: "persist env (assignFields user0 un em pe info) None d = (res, d', log)"
    by (cases "persist env (assignFields user0 un em pe info) None d")
  have d': "d' = d \<or> res = Inr ()"
    using p by (auto simp: persist_def split: sum.splits)
  show ?thesis
  proof (cases res)
    case (Inr x)
    then have "returned (updateUserProfile env user0 un em pe pw info d) = Inr None"
      using p None by (simp add: updateUserProfile_def Let_def)
    with failed show ?thesis by simp
  next
    case (Inl x)
    then have "d' = d" using d' by simp
    then show ?thesis
      using p Inl None by (simp add: updateUserProfile_def Let_def split: prod.splits)
  qed
next
  case (Some p)
  with no_rotation obtain e where
    rot: "auth_changePassword env (auth_findUserAuthByUserId env (id_user user0) (auths d)) p
       (auths d) = Inl e"
    by auto
  show ?thesis
    unfolding Some
    using rotation_failure_changes_nothing [OF rot, of un em pe info] by (rule conjunct1)
qed

text \<open>
  Claim C8. The entity keeps the assigned fields after a failed call, but the persisted
  state is not always unchanged then: with a password, the same call of \<^verbatim>\<open>changePassword\<close>
  outside the transactional entity manager that breaks C2 leaves the rotated credential
  persisted. Here alice asks for bob's email and a new password: the call returns
  \<^verbatim>\<open>DUPLICATE_EMAIL\<close>, the entity has the new email and the new \<^verbatim>\<open>information\<close>, the user
  rows are the old ones, and the password of user 1 is the new one.
\<close>

theorem failed_save_keeps_entity_and_credential:
  "updateUserProfile example_collaborators alice None (Some ''bob@example.org'') True
     (Some ''pw2'') new_info example_db
   = \<lparr> returned = Inr (Some DUPLICATE_EMAIL),
       entity = alice\<lparr> email := ''bob@example.org'', publicEmail := True, bio := ''new bio'',
                       sexIsFamale := False, organization := ''new org'',
                       location := ''new place'' \<rparr>,
       db = \<lparr> users = [alice, bob], auths = [(1, ''pw2''), (2, ''old-b'')] \<rparr>,
       calls = [StartTransaction READ_COMMITTED, FindUserAuthByUserId 1,
                ChangePassword 1 ''pw2'',
                ManagerSave (alice\<lparr> email := ''bob@example.org'', publicEmail := True,
                                   bio := ''new bio'', sexIsFamale := False,
                                   organization := ''new org'', location := ''new place'' \<rparr>),
                RollbackTransaction, CountEmail ''bob@example.org''] \<rparr> \<and>
   example_db = \<lparr> users = [alice, bob], auths = [(1, ''old-a''), (2, ''old-b'')] \<rparr>"
  by (simp add: run_example)

section \<open>Properties of the problem controller\<close>

subsection \<open>Existence is checked before permission\<close>

lemma lookupProblem_log:
  "UserHasPermission u l p b \<notin> set (snd (lookupProblem svc rq s))"
  by (auto simp: lookupProblem_def split: option.splits)

lemma updateStatement_checks:
  assumes "UserHasPermission u l p b \<in> set (snd (snd (updateStatement svc cu rq s)))"
  shows "l = WRITE \<and> p \<noteq> None \<and> p = ps_findProblemById svc (Num (problemId_us rq)) s"
  using assms
  by (auto simp: updateStatement_def Let_def split: option.splits if_splits prod.splits)

lemma getProblemDetail_checks:
  assumes "UserHasPermission u l p b \<in> set (snd (getProblemDetail svc cu rq s))"
  shows "l = READ \<and> p \<noteq> None \<and> p = fst (lookupProblem svc rq s)"
proof -
  obtain found log1 where lk: "lookupProblem svc rq s = (found, log1)"
    by (cases "lookupProblem svc rq s")
  have no: "UserHasPermission u l p b \<notin> set log1"
    using lookupProblem_log [of u l p b svc rq s] lk by simp
  show ?thesis
    using assms lk no
    by (auto simp: getProblemDetail_def Let_def split: option.splits if_splits prod.splits sum.splits)
qed

lemma resolveUsers_eq:
  "resolveUsers t ids acc =
     (case find (\<lambda>i. findUserById t i = None) ids of
        Some i \<Rightarrow>
          (Inl i, map FindUserById (takeWhile (\<lambda>i. findUserById t i \<noteq> None) ids @ [i]))
      | None \<Rightarrow>
          (Inr (acc @ map (\<lambda>i. the (findUserById t i)) ids), map FindUserById ids))"
  by (induction ids arbitrary: acc) (auto split: option.splits)

lemma resolveGroups_eq:
  "resolveGroups svc s ids acc =
     (case find (\<lambda>g. gs_findGroupById svc g s = None) ids of
        Some g \<Rightarrow>
          (Inl g, map FindGroupById (takeWhile (\<lambda>g. gs_findGroupById svc g s \<noteq> None) ids @ [g]))
      | None \<Rightarrow>
          (Inr (acc @ map (\<lambda>g. the (gs_findGroupById svc g s)) ids), map FindGroupById ids))"
  by (induction ids arbitrary: acc) (auto split: option.splits)

lemma resolveUsers_log:
  "resolveUsers t ids acc = (r, log) \<Longrightarrow> set log \<subseteq> range FindUserById"
  unfolding resolveUsers_eq by (auto split: option.splits)

lemma resolveGroups_log:
  "resolveGroups svc s ids acc = (r, log) \<Longrightarrow> set log \<subseteq> range FindGroupById"
  unfolding resolveGroups_eq by (auto split: option.splits)

lemma setProblemPermissions_checks:
  fixes svc :: "('s, 'q, 'cs, 'smp, 'ji, 'e) services"
  assumes "UserHasPermission u l p b \<in> set (snd (snd (setProblemPermissions svc t cu rq s)))"
  shows "l = CONTROL \<and> p \<noteq> None \<and> p = ps_findProblemById svc (Num (problemId_sp rq)) s"
proof -
  obtain ru lu where ru: "resolveUsers t (userIds rq) [] = (ru, lu :: 'q service_call list)"
    by (cases "resolveUsers t (userIds rq) [] :: (int + UserEntity list) \<times> 'q service_call list")
  obtain rg lg where rg: "resolveGroups svc s (groupIds rq) [] = (rg, lg)"
    by (cases "resolveGroups svc s (groupIds rq) []")
  have nu: "UserHasPermission u l p b \<notin> set lu"
    using resolveUsers_log [OF ru] by auto
  have ng: "UserHasPermission u l p b \<notin> set lg"
    using resolveGroups_log [OF rg] by auto
  show ?thesis
    using assms ru rg nu ng
    by (auto simp: setProblemPermissions_def Let_def split: option.splits if_splits sum.splits)
qed

lemmas run_controller =
  setProblemPermissions_def updateStatement_def getProblemDetail_def lookupProblem_def
  example_services_def example_userHasPermission_def example_state0_def two_sum_def
  example_parseInt_def resolve_def findUserById_def findOne_def alice_def bob_def root_def
  error_only_def Let_def

text \<open>
  Claim C4. In \<^verbatim>\<open>updateStatement\<close>, \<^verbatim>\<open>getProblemDetail\<close> and \<^verbatim>\<open>setProblemPermissions\<close>, a
  lookup that finds no problem ends the request with \<^verbatim>\<open>NO_SUCH_PROBLEM\<close>, after the lookup
  alone and with the state untouched. Whatever the request, every call of
  \<^verbatim>\<open>userHasPermission\<close> that these three operations issue is for the level of the operation
  (\<^verbatim>\<open>WRITE\<close>, \<^verbatim>\<open>READ\<close>, \<^verbatim>\<open>CONTROL\<close>) and is given a resource, the problem the lookup found.
\<close>

theorem existence_checked_before_permission:
  "(ps_findProblemById svc (Num (problemId_us rq1)) s = None \<longrightarrow>
      updateStatement svc cu rq1 s =
        (\<lparr>error_us = Some NO_SUCH_PROBLEM\<rparr>, s, [FindProblemById (Num (problemId_us rq1))])) \<and>
   (fst (lookupProblem svc rq2 s) = None \<longrightarrow>
      getProblemDetail svc cu rq2 s =
        (Inr (error_only NO_SUCH_PROBLEM), snd (lookupProblem svc rq2 s))) \<and>
   (ps_findProblemById svc (Num (problemId_sp rq3)) s = None \<longrightarrow>
      setProblemPermissions svc t cu rq3 s =
        (\<lparr>error_sp = Some NO_SUCH_PROBLEM, errorObjectId = Some (problemId_sp rq3)\<rparr>, s,
         [FindProblemById (Num (problemId_sp rq3))])) \<and>
   (\<forall>u l p b. UserHasPermission u l p b \<in> set (snd (snd (updateStatement svc cu rq1 s))) \<longrightarrow>
      l = WRITE \<and> p \<noteq> None \<and> p = ps_findProblemById svc (Num (problemId_us rq1)) s) \<and>
   (\<forall>u l p b. UserHasPermission u l p b \<in> set (snd (getProblemDetail svc cu rq2 s)) \<longrightarrow>
      l = READ \<and> p \<noteq> None \<and> p = fst (lookupProblem svc rq2 s)) \<and>
   (\<forall>u l p b. UserHasPermission u l p b \<in> set (snd (snd (setProblemPermissions svc t cu rq3 s))) \<longrightarrow>
      l = CONTROL \<and> p \<noteq> None \<and> p = ps_findProblemById svc (Num (problemId_sp rq3)) s)"
proof (intro conjI allI impI)
  assume "ps_findProblemById svc (Num (problemId_us rq1)) s = None"
  then show "updateStatement svc cu rq1 s =
        (\<lparr>error_us = Some NO_SUCH_PROBLEM\<rparr>, s, [FindProblemById (Num (problemId_us rq1))])"
    by (simp add: updateStatement_def)
next
  assume "fst (lookupProblem svc rq2 s) = None"
  then show "getProblemDetail svc cu rq2 s =
        (Inr (error_only NO_SUCH_PROBLEM), snd (lookupProblem svc rq2 s))"
    by (cases "lookupProblem svc rq2 s") (simp add: getProblemDetail_def)
next
  assume "ps_findProblemById svc (Num (problemId_sp rq3)) s = None"
  then show "setProblemPermissions svc t cu rq3 s =
        (\<lparr>error_sp = Some NO_SUCH_PROBLEM, errorObjectId = Some (problemId_sp rq3)\<rparr>, s,
         [FindProblemById (Num (problemId_sp rq3))])"
    by (simp add: setProblemPermissions_def)
next
  fix u l p b
  assume a: "UserHasPermission u l p b \<in> set (snd (snd (updateStatement svc cu rq1 s)))"
  show "l = WRITE" "p \<noteq> None" "p = ps_findProblemById svc (Num (problemId_us rq1)) s"
    using updateStatement_checks [OF a] by auto
next
  fix u l p b
  assume a: "UserHasPermission u l p b \<in> set (snd (getProblemDetail svc cu rq2 s))"
  show "l = READ" "p \<noteq> None" "p = fst (lookupProblem svc rq2 s)"
    using getProblemDetail_checks [OF a] by auto
next
  fix u l p b
  assume a: "UserHasPermission u l p b \<in> set (snd (snd (setProblemPermissions svc t cu rq3 s)))"
  show "l = CONTROL" "p \<noteq> None" "p = ps_findProblemById svc (Num (problemId_sp rq3)) s"
    using setProblemPermissions_checks [OF a] by auto
qed

theorem existence_checked_before_permission_witness:
  "updateStatement example_services (Some bob) \<lparr>problemId_us = 99\<rparr> example_state0 =
     (\<lparr>error_us = Some NO_SUCH_PROBLEM\<rparr>, example_state0, [FindProblemById (Num 99)]) \<and>
   getProblemDetail example_services (Some bob)
       \<lparr>id_req = Some ''99'', displayId_req = None, locale_req = ''en''\<rparr> example_state0 =
     (Inr (error_only NO_SUCH_PROBLEM),
      [FindProblemById (Num 99) :: UpdateProblemStatementRequestDto service_call]) \<and>
   setProblemPermissions example_services [alice, bob] (Some bob)
       \<lparr>problemId_sp = 99, permissionType = READ, userIds = [1], groupIds = [5]\<rparr> example_state0 =
     (\<lparr>error_sp = Some NO_SUCH_PROBLEM, errorObjectId = Some 99\<rparr>, example_state0,
      [FindProblemById (Num 99) :: UpdateProblemStatementRequestDto service_call]) \<and>
   updateStatement example_services (Some bob) \<lparr>problemId_us = 10\<rparr> example_state0 =
     (\<lparr>error_us = Some PERMISSION_DENIED\<rparr>, example_state0,
      [FindProblemById (Num 10), UserHasPermission (Some bob) WRITE (Some two_sum) False])"
proof -
  have a: "updateStatement example_services (Some bob) \<lparr>problemId_us = 99\<rparr> example_state0 =
     (\<lparr>error_us = Some NO_SUCH_PROBLEM\<rparr>, example_state0, [FindProblemById (Num 99)])"
    by (simp add: run_controller)
  have b: "getProblemDetail example_services (Some bob)
       \<lparr>id_req = Some ''99'', displayId_req = None, locale_req = ''en''\<rparr> example_state0 =
     (Inr (error_only NO_SUCH_PROBLEM),
      [FindProblemById (Num 99) :: UpdateProblemStatementRequestDto service_call])"
    by (simp add: run_controller)
  have c: "setProblemPermissions example_services [alice, bob] (Some bob)
       \<lparr>problemId_sp = 99, permissionType = READ, userIds = [1], groupIds = [5]\<rparr> example_state0 =
     (\<lparr>error_sp = Some NO_SUCH_PROBLEM, errorObjectId = Some 99\<rparr>, example_state0,
      [FindProblemById (Num 99) :: UpdateProblemStatementRequestDto service_call])"
    by (simp add: run_controller)
  have d: "updateStatement example_services (Some bob) \<lparr>problemId_us = 10\<rparr> example_state0 =
     (\<lparr>error_us = Some PERMISSION_DENIED\<rparr>, example_state0,
      [FindProblemById (Num 10), UserHasPermission (Some bob) WRITE (Some two_sum) False])"
    by (simp add: run_controller)
  show ?thesis
    using existence_checked_before_permission [of example_services "\<lparr>problemId_us = 99\<rparr>"
        example_state0 "Some bob"
        "\<lparr>id_req = Some ''99'', displayId_req = None, locale_req = ''en''\<rparr>"
        "\<lparr>problemId_sp = 99, permissionType = READ, userIds = [1], groupIds = [5]\<rparr>"
        "[alice, bob]"]
      existence_checked_before_permission [of example_services "\<lparr>problemId_us = 10\<rparr>"
        example_state0 "Some bob"
        "\<lparr>id_req = Some ''99'', displayId_req = None, locale_req = ''en''\<rparr>"
        "\<lparr>problemId_sp = 99, permissionType = READ, userIds = [1], groupIds = [5]\<rparr>"
        "[alice, bob]"]
      a b c d
    by simp
qed

subsection \<open>setProblemPermissions: the shape of a request\<close>

lemma setProblemPermissions_shape:
  fixes svc :: "('s, 'q, 'cs, 'smp, 'ji, 'e) services"
  assumes ru: "resolveUsers t (userIds rq) [] = (ru, lu :: 'q service_call list)"
      and rg: "resolveGroups svc s (groupIds rq) [] = (rg, lg)"
  shows "setProblemPermissions svc t cu rq s =
     (case ps_findProblemById svc (Num (problemId_sp rq)) s of
        None \<Rightarrow>
          (\<lparr>error_sp = Some NO_SUCH_PROBLEM, errorObjectId = Some (problemId_sp rq)\<rparr>, s,
           [FindProblemById (Num (problemId_sp rq))])
      | Some p \<Rightarrow>
          if \<not> ps_userHasPermission svc cu CONTROL (Some p) s
          then (\<lparr>error_sp = Some PERMISSION_DENIED, errorObjectId = None\<rparr>, s,
                [FindProblemById (Num (problemId_sp rq)),
                 UserHasPermission cu CONTROL (Some p) False])
          else
            (case ru of
               Inl i \<Rightarrow>
                 (\<lparr>error_sp = Some NO_SUCH_USER, errorObjectId = Some i\<rparr>, s,
                  [FindProblemById (Num (problemId_sp rq)),
                   UserHasPermission cu CONTROL (Some p) True] @ lu)
             | Inr us \<Rightarrow>
                 (case rg of
                    Inl g \<Rightarrow>
                      (\<lparr>error_sp = Some NO_SUCH_GROUP, errorObjectId = Some g\<rparr>, s,
                       [FindProblemById (Num (problemId_sp rq)),
                        UserHasPermission cu CONTROL (Some p) True] @ lu @ lg)
                  | Inr gs \<Rightarrow>
                      (\<lparr>error_sp = None, errorObjectId = None\<rparr>,
                       ps_setProblemPermissions svc p (permissionType rq) us gs s,
                       [FindProblemById (Num (problemId_sp rq)),
                        UserHasPermission cu CONTROL (Some p) True] @ lu @ lg @
                       [SetProblemPermissions p (permissionType rq) us gs]))))"
  by (simp add: setProblemPermissions_def Let_def ru rg split: option.splits sum.splits)

lemma not_in_user_log:
  "resolveUsers t ids acc = (r, log) \<Longrightarrow> SetProblemPermissions p l us gs \<notin> set log"
  using resolveUsers_log [of t ids acc r log] by auto

lemma not_in_group_log:
  "resolveGroups svc s ids acc = (r, log) \<Longrightarrow> SetProblemPermissions p l us gs \<notin> set log"
  using resolveGroups_log [of svc s ids acc r log] by auto

subsection \<open>setProblemPermissions: the CONTROL check\<close>

text \<open>
  Claim C5. If a request calls \<^verbatim>\<open>problemService.setProblemPermissions\<close> on a problem, then
  \<^verbatim>\<open>userHasPermission(currentUser, CONTROL, problem)\<close> was called earlier in that request
  and answered true. The state changes only through that call. When the problem exists
  and the check answers false, the request returns \<^verbatim>\<open>PERMISSION_DENIED\<close> as a value, the
  state is unchanged and nothing is called after the check.
\<close>

theorem setProblemPermissions_requires_control:
  fixes svc :: "('s, 'q, 'cs, 'smp, 'ji, 'e) services"
  assumes run: "setProblemPermissions svc t cu rq s = (resp, s', log)"
  shows "(\<forall>p l us gs. SetProblemPermissions p l us gs \<in> set log \<longrightarrow>
            ps_userHasPermission svc cu CONTROL (Some p) s \<and>
            (\<exists>pre mid. log = pre @ [UserHasPermission cu CONTROL (Some p) True] @ mid @
                               [SetProblemPermissions p l us gs])) \<and>
         (s' \<noteq> s \<longrightarrow> (\<exists>p l us gs. SetProblemPermissions p l us gs \<in> set log)) \<and>
         (\<forall>p. ps_findProblemById svc (Num (problemId_sp rq)) s = Some p \<and>
              \<not> ps_userHasPermission svc cu CONTROL (Some p) s \<longrightarrow>
              resp = \<lparr>error_sp = Some PERMISSION_DENIED, errorObjectId = None\<rparr> \<and> s' = s \<and>
              log = [FindProblemById (Num (problemId_sp rq)),
                     UserHasPermission cu CONTROL (Some p) False])"
proof -
  obtain ru lu where ru: "resolveUsers t (userIds rq) [] = (ru, lu :: 'q service_call list)"
    by (cases "resolveUsers t (userIds rq) [] :: (int + UserEntity list) \<times> 'q service_call list")
  obtain rg lg where rg: "resolveGroups svc s (groupIds rq) [] = (rg, lg)"
    by (cases "resolveGroups svc s (groupIds rq) []")
  note nu = not_in_user_log [OF ru]
  note ng = not_in_group_log [OF rg]
  let ?find = "FindProblemById (Num (problemId_sp rq)) :: 'q service_call"
  consider
      (absent) "ps_findProblemById svc (Num (problemId_sp rq)) s = None"
    | (denied) q where "ps_findProblemById svc (Num (problemId_sp rq)) s = Some q"
        "\<not> ps_userHasPermission svc cu CONTROL (Some q) s"
    | (no_user) q i where "ps_findProblemById svc (Num (problemId_sp rq)) s = Some q"
        "ps_userHasPermission svc cu CONTROL (Some q) s" "ru = Inl i"
    | (no_group) q us' g where "ps_findProblemById svc (Num (problemId_sp rq)) s = Some q"
        "ps_userHasPermission svc cu CONTROL (Some q) s" "ru = Inr us'" "rg = Inl g"
    | (granted) q us' gs' where "ps_findProblemById svc (Num (problemId_sp rq)) s = Some q"
        "ps_userHasPermission svc cu CONTROL (Some q) s" "ru = Inr us'" "rg = Inr gs'"
    by (cases "ps_findProblemById svc (Num (problemId_sp rq)) s"; cases ru; cases rg) blast+
  then show ?thesis
  proof cases
    case absent
    have "(resp, s', log) =
        (\<lparr>error_sp = Some NO_SUCH_PROBLEM, errorObjectId = Some (problemId_sp rq)\<rparr>, s, [?find])"
      unfolding run [symmetric] by (simp add: setProblemPermissions_shape [OF ru rg] absent)
    then have "s' = s" "log = [?find]" by simp_all
    then show ?thesis using absent by simp
  next
    case denied
    have "(resp, s', log) =
        (\<lparr>error_sp = Some PERMISSION_DENIED, errorObjectId = None\<rparr>, s,
         [?find, UserHasPermission cu CONTROL (Some q) False])"
      unfolding run [symmetric] by (simp add: setProblemPermissions_shape [OF ru rg] denied)
    then have "resp = \<lparr>error_sp = Some PERMISSION_DENIED, errorObjectId = None\<rparr>" "s' = s"
      "log = [?find, UserHasPermission cu CONTROL (Some q) False]" by simp_all
    then show ?thesis using denied by simp
  next
    case no_user
    have "(resp, s', log) =
        (\<lparr>error_sp = Some NO_SUCH_USER, errorObjectId = Some i\<rparr>, s,
         [?find, UserHasPermission cu CONTROL (Some q) True] @ lu)"
      unfolding run [symmetric] by (simp add: setProblemPermissions_shape [OF ru rg] no_user)
    then have "s' = s" "log = [?find, UserHasPermission cu CONTROL (Some q) True] @ lu"
      by simp_all
    then show ?thesis using no_user nu by simp
  next
    case no_group
    have "(resp, s', log) =
        (\<lparr>error_sp = Some NO_SUCH_GROUP, errorObjectId = Some g\<rparr>, s,
         [?find, UserHasPermission cu CONTROL (Some q) True] @ lu @ lg)"
      unfolding run [symmetric] by (simp add: setProblemPermissions_shape [OF ru rg] no_group)
    then have "s' = s" "log = [?find, UserHasPermission cu CONTROL (Some q) True] @ lu @ lg"
      by simp_all
    then show ?thesis using no_group nu ng by simp
  next
    case granted
    have "(resp, s', log) =
        (\<lparr>error_sp = None, errorObjectId = None\<rparr>,
         ps_setProblemPermissions svc q (permissionType rq) us' gs' s,
         [?find, UserHasPermission cu CONTROL (Some q) True] @ lu @ lg @
         [SetProblemPermissions q (permissionType rq) us' gs'])"
      unfolding run [symmetric] by (simp add: setProblemPermissions_shape [OF ru rg] granted)
    then have lg: "log = [?find] @ [UserHasPermission cu CONTROL (Some q) True] @ (lu @ lg) @
         [SetProblemPermissions q (permissionType rq) us' gs']"
      by simp
    have only: "p = q \<and> l = permissionType rq \<and> us = us' \<and> gs = gs'"
      if "SetProblemPermissions p l us gs \<in> set log" for p l us gs
      using that nu ng unfolding lg by auto
    have mem: "SetProblemPermissions q (permissionType rq) us' gs' \<in> set log"
      unfolding lg by simp
    have a: "\<forall>p l us gs. SetProblemPermissions p l us gs \<in> set log \<longrightarrow>
            ps_userHasPermission svc cu CONTROL (Some p) s \<and>
            (\<exists>pre mid. log = pre @ [UserHasPermission cu CONTROL (Some p) True] @ mid @
                               [SetProblemPermissions p l us gs])"
    proof (intro allI impI)
      fix p l us gs
      assume "SetProblemPermissions p l us gs \<in> set log"
      then have e: "p = q" "l = permissionType rq" "us = us'" "gs = gs'"
        using only by blast+
      show "ps_userHasPermission svc cu CONTROL (Some p) s \<and>
            (\<exists>pre mid. log = pre @ [UserHasPermission cu CONTROL (Some p) True] @ mid @
                               [SetProblemPermissions p l us gs])"
        unfolding e using granted(2) lg by blast
    qed
    have b: "\<exists>p l us gs. SetProblemPermissions p l us gs \<in> set log"
      using mem by blast
    have c: "\<forall>p. ps_findProblemById svc (Num (problemId_sp rq)) s = Some p \<and>
              \<not> ps_userHasPermission svc cu CONTROL (Some p) s \<longrightarrow>
              resp = \<lparr>error_sp = Some PERMISSION_DENIED, errorObjectId = None\<rparr> \<and> s' = s \<and>
              log = [FindProblemById (Num (problemId_sp rq)),
                     UserHasPermission cu CONTROL (Some p) False]"
      using granted(1,2) by simp
    show ?thesis
      using a b c by blast
  qed
qed

theorem setProblemPermissions_requires_control_witness:
  "setProblemPermissions example_services [alice, bob] (Some alice)
       \<lparr>problemId_sp = 10, permissionType = WRITE, userIds = [2], groupIds = [5]\<rparr>
       example_state0 =
     (\<lparr>error_sp = None, errorObjectId = None\<rparr>,
      example_state0\<lparr>grants := [(10, WRITE, [2], [5])]\<rparr>,
      [FindProblemById (Num 10) :: unit service_call,
       UserHasPermission (Some alice) CONTROL (Some two_sum) True,
       FindUserById 2, FindGroupById 5,
       SetProblemPermissions two_sum WRITE [bob] [\<lparr>id_group = 5\<rparr>]]) \<and>
   setProblemPermissions example_services [alice, bob] (Some bob)
       \<lparr>problemId_sp = 10, permissionType = WRITE, userIds = [2], groupIds = [5]\<rparr>
       example_state0 =
     (\<lparr>error_sp = Some PERMISSION_DENIED, errorObjectId = None\<rparr>, example_state0,
      [FindProblemById (Num 10) :: unit service_call,
       UserHasPermission (Some bob) CONTROL (Some two_sum) False])"
proof -
  let ?rq = "\<lparr>problemId_sp = 10, permissionType = WRITE, userIds = [2], groupIds = [5]\<rparr>"
  have run1: "setProblemPermissions example_services [alice, bob] (Some alice) ?rq example_state0 =
     (\<lparr>error_sp = None, errorObjectId = None\<rparr>,
      example_state0\<lparr>grants := [(10, WRITE, [2], [5])]\<rparr>,
      [FindProblemById (Num 10) :: unit service_call,
       UserHasPermission (Some alice) CONTROL (Some two_sum) True,
       FindUserById 2, FindGroupById 5,
       SetProblemPermissions two_sum WRITE [bob] [\<lparr>id_group = 5\<rparr>]])"
    by (simp add: run_controller)
  have run2: "setProblemPermissions example_services [alice, bob] (Some bob) ?rq example_state0 =
     (\<lparr>error_sp = Some PERMISSION_DENIED, errorObjectId = None\<rparr>, example_state0,
      [FindProblemById (Num 10) :: unit service_call,
       UserHasPermission (Some bob) CONTROL (Some two_sum) False])"
    by (simp add: run_controller)
  show ?thesis
    using setProblemPermissions_requires_control [OF run1]
      setProblemPermissions_requires_control [OF run2] run1 run2
    by simp
qed

subsection \<open>setProblemPermissions: ids without an entity\<close>

text \<open>
  Claim C3 as stated does not hold of every request: the lookup of the problem and the
  \<^verbatim>\<open>CONTROL\<close> check come first. A request that names user 42, who does not exist, ends
  with \<^verbatim>\<open>NO_SUCH_PROBLEM\<close> and the problem's id when the problem does not exist, and with
  \<^verbatim>\<open>PERMISSION_DENIED\<close> when the caller lacks \<^verbatim>\<open>CONTROL\<close>; in neither case is a user or
  group looked up.
\<close>

theorem setProblemPermissions_gates_first:
  "findUserById [alice, bob] 42 = None \<and>
   setProblemPermissions example_services [alice, bob] (Some alice)
       \<lparr>problemId_sp = 99, permissionType = READ, userIds = [42], groupIds = []\<rparr> example_state0 =
     (\<lparr>error_sp = Some NO_SUCH_PROBLEM, errorObjectId = Some 99\<rparr>, example_state0,
      [FindProblemById (Num 99) :: unit service_call]) \<and>
   setProblemPermissions example_services [alice, bob] (Some bob)
       \<lparr>problemId_sp = 10, permissionType = READ, userIds = [42], groupIds = []\<rparr> example_state0 =
     (\<lparr>error_sp = Some PERMISSION_DENIED, errorObjectId = None\<rparr>, example_state0,
      [FindProblemById (Num 10) :: unit service_call,
       UserHasPermission (Some bob) CONTROL (Some two_sum) False])"
  by (simp add: run_controller)

text \<open>
  Claim C3, amended. For every request whose problem exists and whose caller passes the
  \<^verbatim>\<open>CONTROL\<close> check, and which names a user id or a group id with no entity: if some user
  id has no entity, the response is \<^verbatim>\<open>NO_SUCH_USER\<close> with the first such user id, and
  the users before it are the only ones looked up; otherwise the response is
  \<^verbatim>\<open>NO_SUCH_GROUP\<close> with the first group id that has no entity, after all user ids and
  then the groups before it were looked up. In both cases
  \<^verbatim>\<open>problemService.setProblemPermissions\<close> is not called and the state is unchanged.
\<close>

theorem setProblemPermissions_unknown_principal:
  fixes svc :: "('s, 'q, 'cs, 'smp, 'ji, 'e) services"
  assumes found: "ps_findProblemById svc (Num (problemId_sp rq)) s = Some problem"
      and granted: "ps_userHasPermission svc cu CONTROL (Some problem) s"
      and unknown: "(\<exists>i\<in>set (userIds rq). findUserById t i = None) \<or>
                    (\<exists>g\<in>set (groupIds rq). gs_findGroupById svc g s = None)"
      and run: "setProblemPermissions svc t cu rq s = (resp, s', log)"
  shows "(case find (\<lambda>i. findUserById t i = None) (userIds rq) of
            Some i \<Rightarrow>
              resp = \<lparr>error_sp = Some NO_SUCH_USER, errorObjectId = Some i\<rparr> \<and>
              log = [FindProblemById (Num (problemId_sp rq)),
                     UserHasPermission cu CONTROL (Some problem) True] @
                    map FindUserById
                      (takeWhile (\<lambda>i. findUserById t i \<noteq> None) (userIds rq) @ [i])
          | None \<Rightarrow>
              (\<exists>g. find (\<lambda>g. gs_findGroupById svc g s = None) (groupIds rq) = Some g \<and>
                   resp = \<lparr>error_sp = Some NO_SUCH_GROUP, errorObjectId = Some g\<rparr> \<and>
                   log = [FindProblemById (Num (problemId_sp rq)),
                          UserHasPermission cu CONTROL (Some problem) True] @
                         map FindUserById (userIds rq) @
                         map FindGroupById
                           (takeWhile (\<lambda>g. gs_findGroupById svc g s \<noteq> None) (groupIds rq)
                            @ [g]))) \<and>
         s' = s \<and>
         (\<forall>p l us gs. SetProblemPermissions p l us gs \<notin> set log)"
proof (cases "find (\<lambda>i. findUserById t i = None) (userIds rq)")
  case (Some i)
  let ?lu = "map FindUserById
      (takeWhile (\<lambda>i. findUserById t i \<noteq> None) (userIds rq) @ [i]) :: 'q service_call list"
  have ru: "resolveUsers t (userIds rq) [] = (Inl i, ?lu)"
    by (simp only: resolveUsers_eq Some option.case)
  obtain rg lg where rg: "resolveGroups svc s (groupIds rq) [] = (rg, lg)"
    by (cases "resolveGroups svc s (groupIds rq) []")
  have "(resp, s', log) =
      (\<lparr>error_sp = Some NO_SUCH_USER, errorObjectId = Some i\<rparr>, s,
       [FindProblemById (Num (problemId_sp rq)),
        UserHasPermission cu CONTROL (Some problem) True] @ ?lu)"
    unfolding run [symmetric]
    by (simp add: setProblemPermissions_shape [OF ru rg] found granted)
  then have r: "resp = \<lparr>error_sp = Some NO_SUCH_USER, errorObjectId = Some i\<rparr>" "s' = s"
    "log = [FindProblemById (Num (problemId_sp rq)),
        UserHasPermission cu CONTROL (Some problem) True] @ ?lu"
    by simp_all
  have "\<forall>p l us gs. SetProblemPermissions p l us gs \<notin> set log"
    unfolding r(3) by auto
  then show ?thesis
    using r by (simp add: Some)
next
  case None
  then have all_users: "\<forall>i\<in>set (userIds rq). findUserById t i \<noteq> None"
    by (simp add: find_None_iff)
  with unknown have "\<exists>g\<in>set (groupIds rq). gs_findGroupById svc g s = None"
    by blast
  then have "find (\<lambda>g. gs_findGroupById svc g s = None) (groupIds rq) \<noteq> None"
    by (auto simp add: find_None_iff)
  then obtain g where g: "find (\<lambda>g. gs_findGroupById svc g s = None) (groupIds rq) = Some g"
    by blast
  let ?us = "map (\<lambda>i. the (findUserById t i)) (userIds rq)"
  let ?lu = "map FindUserById (userIds rq) :: 'q service_call list"
  let ?lg = "map FindGroupById
      (takeWhile (\<lambda>g. gs_findGroupById svc g s \<noteq> None) (groupIds rq) @ [g])
      :: 'q service_call list"
  have ru: "resolveUsers t (userIds rq) [] = (Inr ?us, ?lu)"
    by (simp only: resolveUsers_eq None option.case append_Nil)
  have rg: "resolveGroups svc s (groupIds rq) [] = (Inl g, ?lg)"
    by (simp only: resolveGroups_eq g option.case)
  have "(resp, s', log) =
      (\<lparr>error_sp = Some NO_SUCH_GROUP, errorObjectId = Some g\<rparr>, s,
       [FindProblemById (Num (problemId_sp rq)),
        UserHasPermission cu CONTROL (Some problem) True] @ ?lu @ ?lg)"
    unfolding run [symmetric]
    by (simp add: setProblemPermissions_shape [OF ru rg] found granted)
  then have r: "resp = \<lparr>error_sp = Some NO_SUCH_GROUP, errorObjectId = Some g\<rparr>" "s' = s"
    "log = [FindProblemById (Num (problemId_sp rq)),
        UserHasPermission cu CONTROL (Some problem) True] @ ?lu @ ?lg"
    by simp_all
  have "\<forall>p l us gs. SetProblemPermissions p l us gs \<notin> set log"
    unfolding r(3) by auto
  then show ?thesis
    using r g by (simp add: None)
qed

theorem setProblemPermissions_unknown_principal_witness:
  "setProblemPermissions example_services [alice, bob] (Some alice)
       \<lparr>problemId_sp = 10, permissionType = WRITE, userIds = [2, 42, 1], groupIds = [7]\<rparr>
       example_state0 =
     (\<lparr>error_sp = Some NO_SUCH_USER, errorObjectId = Some 42\<rparr>, example_state0,
      [FindProblemById (Num 10) :: unit service_call,
       UserHasPermission (Some alice) CONTROL (Some two_sum) True,
       FindUserById 2, FindUserById 42]) \<and>
   setProblemPermissions example_services [alice, bob] (Some alice)
       \<lparr>problemId_sp = 10, permissionType = WRITE, userIds = [2, 1], groupIds = [5, 7, 8]\<rparr>
       example_state0 =
     (\<lparr>error_sp = Some NO_SUCH_GROUP, errorObjectId = Some 7\<rparr>, example_state0,
      [FindProblemById (Num 10) :: unit service_call,
       UserHasPermission (Some alice) CONTROL (Some two_sum) True,
       FindUserById 2, FindUserById 1, FindGroupById 5, FindGroupById 7])"
proof -
  let ?rq1 = "\<lparr>problemId_sp = 10, permissionType = WRITE, userIds = [2, 42, 1], groupIds = [7]\<rparr>"
  let ?rq2 = "\<lparr>problemId_sp = 10, permissionType = WRITE, userIds = [2, 1], groupIds = [5, 7, 8]\<rparr>"
  have found1: "ps_findProblemById example_services (Num (problemId_sp ?rq1)) example_state0
      = Some two_sum"
    by (simp add: run_controller)
  have found2: "ps_findProblemById example_services (Num (problemId_sp ?rq2)) example_state0
      = Some two_sum"
    by (simp add: run_controller)
  have granted: "ps_userHasPermission example_services (Some alice) CONTROL (Some two_sum)
      example_state0"
    by (simp add: run_controller)
  have unknown1: "(\<exists>i\<in>set (userIds ?rq1). findUserById [alice, bob] i = None) \<or>
      (\<exists>g\<in>set (groupIds ?rq1). gs_findGroupById example_services g example_state0 = None)"
    by (simp add: run_controller)
  have unknown2: "(\<exists>i\<in>set (userIds ?rq2). findUserById [alice, bob] i = None) \<or>
      (\<exists>g\<in>set (groupIds ?rq2). gs_findGroupById example_services g example_state0 = None)"
    by (simp add: run_controller)
  have run1: "setProblemPermissions example_services [alice, bob] (Some alice) ?rq1 example_state0 =
     (\<lparr>error_sp = Some NO_SUCH_USER, errorObjectId = Some 42\<rparr>, example_state0,
      [FindProblemById (Num 10) :: unit service_call,
       UserHasPermission (Some alice) CONTROL (Some two_sum) True,
       FindUserById 2, FindUserById 42])"
    by (simp add: run_controller)
  have run2: "setProblemPermissions example_services [alice, bob] (Some alice) ?rq2 example_state0 =
     (\<lparr>error_sp = Some NO_SUCH_GROUP, errorObjectId = Some 7\<rparr>, example_state0,
      [FindProblemById (Num 10) :: unit service_call,
       UserHasPermission (Some alice) CONTROL (Some two_sum) True,
       FindUserById 2, FindUserById 1, FindGroupById 5, FindGroupById 7])"
    by (simp add: run_controller)
  show ?thesis
    using setProblemPermissions_unknown_principal [OF found1 granted unknown1 run1]
      setProblemPermissions_unknown_principal [OF found2 granted unknown2 run2] run1 run2
    by simp
qed

subsection \<open>getProblemDetail: the two locales\<close>

text \<open>
  The object the controller returns has the keys \<^verbatim>\<open>titleLocale\<close> and \<^verbatim>\<open>contentLocale\<close>;
  the class \<^verbatim>\<open>GetProblemDetailResponseDto\<close> at hand declares a single \<^verbatim>\<open>resultLocale\<close>
  instead. The model follows the object. Below, the title of the example problem exists in
  \<^verbatim>\<open>en\<close> only and its content in \<^verbatim>\<open>en\<close> and \<^verbatim>\<open>fr\<close>: a request for \<^verbatim>\<open>fr\<close> gets the title
  in \<^verbatim>\<open>en\<close> and the content in \<^verbatim>\<open>fr\<close>.
\<close>

lemma getProblemDetail_differing_locales:
  "getProblemDetail (example_services
       :: (example_state, unit, string list, unit, unit, resolver_error) services)
     (Some alice) \<lparr>id_req = Some ''10'', displayId_req = None, locale_req = ''fr''\<rparr>
     example_state0 =
   (Inr \<lparr> error_gd = None, meta = Some two_sum, title = Some ''Two Sum'',
          titleLocale = Some ''en'', samples = Some (),
          contentSections = Some [''Trouver deux nombres''], contentLocale = Some ''fr'',
          judgeInfo = Some () \<rparr>,
    [FindProblemById (Num 10), UserHasPermission (Some alice) READ (Some two_sum) True,
     GetProblemLocalizedTitle two_sum ''fr'', GetProblemLocalizedContent two_sum ''fr'',
     GetProblemSamples two_sum, GetProblemJudgeInfo two_sum])"
  by (simp add: run_controller)

text \<open>
  Claim C7. When the problem is found and read access is granted, the title and the
  content are resolved by two calls, each with the problem and the requested locale and
  nothing of the other's result; the response's \<^verbatim>\<open>titleLocale\<close> and \<^verbatim>\<open>title\<close> are what
  the first call returned and its \<^verbatim>\<open>contentLocale\<close> and \<^verbatim>\<open>contentSections\<close> what the
  second returned. The two locales can differ within one request.
\<close>

theorem getProblemDetail_two_locales:
  fixes svc :: "('s, 'q, 'cs, 'smp, 'ji, 'e) services"
  assumes found: "fst (lookupProblem svc rq s) = Some problem"
      and granted: "ps_userHasPermission svc cu READ (Some problem) s"
      and title_found: "ps_getProblemLocalizedTitle svc problem (locale_req rq) s = Inr (tloc, ttext)"
      and content_found: "ps_getProblemLocalizedContent svc problem (locale_req rq) s = Inr (cloc, csec)"
  shows "(\<exists>resp. fst (getProblemDetail svc cu rq s) = Inr resp \<and>
            error_gd resp = None \<and>
            title resp = Some ttext \<and> titleLocale resp = Some tloc \<and>
            contentSections resp = Some csec \<and> contentLocale resp = Some cloc) \<and>
         snd (getProblemDetail svc cu rq s) =
           snd (lookupProblem svc rq s) @
           [UserHasPermission cu READ (Some problem) True,
            GetProblemLocalizedTitle problem (locale_req rq),
            GetProblemLocalizedContent problem (locale_req rq),
            GetProblemSamples problem, GetProblemJudgeInfo problem] \<and>
         (\<exists>rq' resp'.
            fst (getProblemDetail (example_services
                   :: (example_state, unit, string list, unit, unit, resolver_error) services)
                 (Some alice) rq' example_state0) = Inr resp' \<and>
            titleLocale resp' \<noteq> contentLocale resp')"
proof (intro conjI)
  obtain log1 where lk: "lookupProblem svc rq s = (Some problem, log1)"
    using found by (cases "lookupProblem svc rq s") simp
  show "\<exists>resp. fst (getProblemDetail svc cu rq s) = Inr resp \<and>
            error_gd resp = None \<and>
            title resp = Some ttext \<and> titleLocale resp = Some tloc \<and>
            contentSections resp = Some csec \<and> contentLocale resp = Some cloc"
    by (simp add: getProblemDetail_def Let_def lk granted title_found content_found)
  show "snd (getProblemDetail svc cu rq s) =
           snd (lookupProblem svc rq s) @
           [UserHasPermission cu READ (Some problem) True,
            GetProblemLocalizedTitle problem (locale_req rq),
            GetProblemLocalizedContent problem (locale_req rq),
            GetProblemSamples problem, GetProblemJudgeInfo problem]"
    by (simp add: getProblemDetail_def Let_def lk granted title_found content_found)
  show "\<exists>rq' resp'.
            fst (getProblemDetail (example_services
                   :: (example_state, unit, string list, unit, unit, resolver_error) services)
                 (Some alice) rq' example_state0) = Inr resp' \<and>
            titleLocale resp' \<noteq> contentLocale resp'"
    by (rule exI [of _ "\<lparr>id_req = Some ''10'', displayId_req = None, locale_req = ''fr''\<rparr>"])
       (simp add: getProblemDetail_differing_locales)
qed

theorem getProblemDetail_two_locales_witness:
  "getProblemDetail (example_services
       :: (example_state, unit, string list, unit, unit, resolver_error) services)
     (Some alice) \<lparr>id_req = Some ''10'', displayId_req = None, locale_req = ''fr''\<rparr>
     example_state0 =
   (Inr \<lparr> error_gd = None, meta = Some two_sum, title = Some ''Two Sum'',
          titleLocale = Some ''en'', samples = Some (),
          contentSections = Some [''Trouver deux nombres''], contentLocale = Some ''fr'',
          judgeInfo = Some () \<rparr>,
    [FindProblemById (Num 10), UserHasPermission (Some alice) READ (Some two_sum) True,
     GetProblemLocalizedTitle two_sum ''fr'', GetProblemLocalizedContent two_sum ''fr'',
     GetProblemSamples two_sum, GetProblemJudgeInfo two_sum]) \<and>
   ps_getProblemLocalizedTitle (example_services
       :: (example_state, unit, string list, unit, unit, resolver_error) services)
     two_sum ''fr'' example_state0 = Inr (''en'', ''Two Sum'') \<and>
   ps_getProblemLocalizedContent (example_services
       :: (example_state, unit, string list, unit, unit, resolver_error) services)
     two_sum ''fr'' example_state0 = Inr (''fr'', [''Trouver deux nombres''])"
proof -
  let ?svc = "example_services
       :: (example_state, unit, string list, unit, unit, resolver_error) services"
  let ?rq = "\<lparr>id_req = Some ''10'', displayId_req = None, locale_req = ''fr''\<rparr>"
  have found: "fst (lookupProblem ?svc ?rq example_state0) = Some two_sum"
    by (simp add: run_controller)
  have granted: "ps_userHasPermission ?svc (Some alice) READ (Some two_sum) example_state0"
    by (simp add: run_controller)
  have t: "ps_getProblemLocalizedTitle ?svc two_sum (locale_req ?rq) example_state0
      = Inr (''en'', ''Two Sum'')"
    by (simp add: run_controller)
  have c: "ps_getProblemLocalizedContent ?svc two_sum (locale_req ?rq) example_state0
      = Inr (''fr'', [''Trouver deux nombres''])"
    by (simp add: run_controller)
  show ?thesis
    using getProblemDetail_two_locales [OF found granted t c] t c
    by (simp add: getProblemDetail_differing_locales)
qed

end
